theory Spec2Isabelle
  imports Main "HOL-Library.Word"
begin

section \<open>Data model\<close>

text \<open>
  The repository wizard of \<^verbatim>\<open>pkg/cmd/workspace/util/repository_wizard.go\<close> and the
  branch listing service of \<^verbatim>\<open>pkg/server/gitproviders/branches.go\<close>.

  Go's \<^verbatim>\<open>error\<close> values: the sentinel \<^verbatim>\<open>common.ErrCtrlCAbort\<close>, an opaque error
  with a message, and \<^verbatim>\<open>fmt.Errorf(prefix + "%w", err)\<close>, which keeps the error
  it wraps.
\<close>

datatype error =
    ErrCtrlCAbort
  | OtherError string
  | Errorf string error

text \<open>\<^verbatim>\<open>err.Error()\<close>: the text of a wrapped error is the prefix followed by the
  text of the error inside.\<close>

fun Error :: "error \<Rightarrow> string" where
  "Error ErrCtrlCAbort = ''ctrl-c abort''"
| "Error (OtherError msg) = msg"
| "Error (Errorf prefix err) = prefix @ Error err"

text \<open>\<^verbatim>\<open>errors.Unwrap\<close>.\<close>

fun Unwrap :: "error \<Rightarrow> error option" where
  "Unwrap (Errorf prefix err) = Some err"
| "Unwrap _ = None"

type_synonym int32 = "32 word"

datatype http_response = HttpResponse (StatusCode: int)

text \<open>\<^verbatim>\<open>apiclient.GitProvider\<close>, the fields the wizard reads.\<close>

record GitProvider =
  gp_Id :: string
  gp_ProviderId :: string
  gp_Username :: string
  gp_Alias :: string

text \<open>An entry of \<^verbatim>\<open>config_const.GetSupportedGitProviders()\<close>.\<close>

record SupportedGitProvider =
  sp_Id :: string
  sp_Name :: string

record GitProviderView =
  gv_Id :: string
  gv_ProviderId :: string
  gv_Name :: string
  gv_Username :: string
  gv_Alias :: string

record Sample =
  sample_Name :: string
  sample_GitUrl :: string

record GitNamespace =
  ns_Id :: string
  ns_Name :: string

record GitRepository =
  repo_Id :: string
  repo_Name :: string
  repo_Url :: string
  repo_Branch :: string
  repo_Sha :: string
  repo_Owner :: string
  repo_Source :: string

record GitBranch =
  branch_Name :: string
  branch_Sha :: string

record ListOptions =
  opt_Page :: int
  opt_PerPage :: int

record RepositoryWizardConfig =
  UserGitProviders :: "GitProvider list"
  Manual :: bool
  MultiProject :: bool
  SkipBranchSelection :: bool
  ProjectOrder :: int
  SelectedRepos :: "string \<rightharpoonup> int"

record BranchWizardConfig =
  bw_GitProviderConfigId :: string
  bw_NamespaceId :: string
  bw_Namespace :: string
  bw_ChosenRepo :: GitRepository
  bw_ProjectOrder :: int
  bw_ProviderId :: string

section \<open>Provider quirks\<close>

fun isGitProviderWithUnsupportedPagination :: "string \<Rightarrow> bool" where
  "isGitProviderWithUnsupportedPagination providerId =
     (if providerId = ''azure-devops'' \<or> providerId = ''bitbucket''
         \<or> providerId = ''gitness'' \<or> providerId = ''aws-codecommit''
      then True else False)"

text \<open>The test of the namespace loop (line 141).\<close>

definition namespacePaginationDisabled :: "string \<Rightarrow> bool" where
  "namespacePaginationDisabled providerId =
     isGitProviderWithUnsupportedPagination providerId"

text \<open>The test of the repository loop (line 195): bitbucket pages its repositories.\<close>

definition repositoryPaginationDisabled :: "string \<Rightarrow> bool" where
  "repositoryPaginationDisabled providerId =
     (isGitProviderWithUnsupportedPagination providerId \<and> providerId \<noteq> ''bitbucket'')"

section \<open>The provider choice list\<close>

text \<open>Lines 61 to 75: for every configured provider, in order, one view per supported
  provider whose \<^verbatim>\<open>Id\<close> equals its \<^verbatim>\<open>ProviderId\<close>.\<close>

definition toGitProviderView :: "GitProvider \<Rightarrow> SupportedGitProvider \<Rightarrow> GitProviderView" where
  "toGitProviderView gitProvider supportedProvider =
     \<lparr> gv_Id = gp_Id gitProvider,
       gv_ProviderId = gp_ProviderId gitProvider,
       gv_Name = sp_Name supportedProvider,
       gv_Username = gp_Username gitProvider,
       gv_Alias = gp_Alias gitProvider \<rparr>"


fun appendSupported ::
  "GitProviderView list \<Rightarrow> GitProvider \<Rightarrow> SupportedGitProvider list \<Rightarrow> GitProviderView list" where
  "appendSupported gitProviderViewList gitProvider [] = gitProviderViewList"
| "appendSupported gitProviderViewList gitProvider (supportedProvider # rest) =
     appendSupported
       (if gp_ProviderId gitProvider = sp_Id supportedProvider
        then gitProviderViewList @ [toGitProviderView gitProvider supportedProvider]
        else gitProviderViewList)
       gitProvider rest"

fun buildGitProviderViewList ::
  "GitProviderView list \<Rightarrow> GitProvider list \<Rightarrow> SupportedGitProvider list \<Rightarrow> GitProviderView list" where
  "buildGitProviderViewList gitProviderViewList [] supportedProviders = gitProviderViewList"
| "buildGitProviderViewList gitProviderViewList (gitProvider # rest) supportedProviders =
     buildGitProviderViewList
       (appendSupported gitProviderViewList gitProvider supportedProviders)
       rest supportedProviders"

text \<open>Lines 103 to 108: the provider kind of the chosen configuration, the last match
  winning, the empty string when there is none.\<close>

fun lookupProviderId :: "string \<Rightarrow> GitProviderView list \<Rightarrow> string \<Rightarrow> string" where
  "lookupProviderId providerId [] gitProviderConfigId = providerId"
| "lookupProviderId providerId (gp # rest) gitProviderConfigId =
     lookupProviderId
       (if gv_Id gp = gitProviderConfigId then gv_ProviderId gp else providerId)
       rest gitProviderConfigId"

section \<open>The branch listing service\<close>

text \<open>
  \<^verbatim>\<open>GitProviderService.GetRepoBranches\<close>. The provider lookup \<^verbatim>\<open>s.GetGitProvider\<close> and
  the provider's own \<^verbatim>\<open>GetRepoBranches\<close> method are interfaces of the service and
  are parameters here; a provider is represented by its branch listing method.
\<close>

type_synonym git_provider = "string \<Rightarrow> string \<Rightarrow> ListOptions \<Rightarrow> error + GitBranch list"

definition GetRepoBranches ::
  "(string \<Rightarrow> error + git_provider) \<Rightarrow> string \<Rightarrow> string \<Rightarrow> string \<Rightarrow> ListOptions
    \<Rightarrow> error + GitBranch list" where
  "GetRepoBranches GetGitProvider gitProviderId namespaceId repositoryId options =
     (case GetGitProvider gitProviderId of
        Inl err \<Rightarrow> Inl (Errorf ''failed to get git provider: '' err)
      | Inr gitProvider \<Rightarrow>
          (case gitProvider repositoryId namespaceId options of
             Inl err \<Rightarrow> Inl (Errorf ''failed to get branches: '' err)
           | Inr response \<Rightarrow> Inr response))"

section \<open>The world the wizard talks to\<close>

text \<open>
  The wizard calls the API client, the prompts of the \<^verbatim>\<open>selection\<close> and \<^verbatim>\<open>create\<close>
  views and the branch wizard. None of them is part of the two files, so they are the
  fields of an environment. A call made once is a function of its arguments. The two
  prompts inside the loops are asked again and again, so the user's part is the list of
  answers they give, one for each time the prompt is shown; a fetch inside a loop also
  gets the number of fetches the loop made before, since the server may answer the same
  request differently the next time.
\<close>

record env =
  ListSamples :: "Sample list \<times> http_response option \<times> error option"
  HandleErrorResponse :: "http_response option \<Rightarrow> error \<Rightarrow> error"
  GetRepositoryFromUrlInput :: "bool \<Rightarrow> int \<Rightarrow> (string \<rightharpoonup> int) \<Rightarrow> error + GitRepository"
  GetSupportedGitProviders :: "SupportedGitProvider list"
  GetProviderIdFromPrompt :: "GitProviderView list \<Rightarrow> int \<Rightarrow> bool \<Rightarrow> string"
  CustomRepoIdentifier :: string
  CREATE_FROM_SAMPLE :: string
  GetSampleFromPrompt :: "Sample list \<Rightarrow> Sample option"
  GetGitContext :: "string \<Rightarrow> (http_response option \<times> error) + GitRepository"
  GetNamespaces :: "nat \<Rightarrow> string \<Rightarrow> int32 \<Rightarrow> int32 \<Rightarrow> error + GitNamespace list"
  NamespacePromptAnswers :: "(string \<times> string) list"
  GetRepositories ::
    "nat \<Rightarrow> string \<Rightarrow> string \<Rightarrow> int32 \<Rightarrow> int32 \<Rightarrow> error + GitRepository list"
  RepositoryPromptAnswers :: "(GitRepository option \<times> string) list"
  SetBranchFromWizard :: "BranchWizardConfig \<Rightarrow> error + GitRepository"

text \<open>
  What the wizard did, in order: every call it made to the outside, with the arguments
  and with what came back. A prompt that is shown when the user has no answer left
  carries \<open>None\<close>: the wizard is still waiting there.
\<close>

datatype event =
    EvListSamples "Sample list" "error option"
  | EvLogDebug error
  | EvGetRepositoryFromUrlInput bool int
  | EvGetProviderIdFromPrompt "GitProviderView list" int bool string
  | EvGetSampleFromPrompt "Sample list" "Sample option"
  | EvGetGitContext string
  | EvGetNamespaces string int32 int32 "error + GitNamespace list"
  | EvGetNamespaceIdFromPrompt "GitNamespace list" int string bool int32 int32
      "(string \<times> string) option"
  | EvGetRepositories string string int32 int32 "error + GitRepository list"
  | EvGetRepositoryFromPrompt "GitRepository list" int string bool int32 int32
      "(GitRepository option \<times> string) option"
  | EvSetBranchFromWizard BranchWizardConfig

text \<open>A run is the list of its events and what it returned; \<open>None\<close> when it is
  still waiting at a prompt.\<close>

type_synonym 'a run = "event list \<times> (error + 'a) option"

definition after :: "event list \<Rightarrow> 'a run \<Rightarrow> 'a run" where
  "after events r = (events @ fst r, snd r)"

text \<open>\<^verbatim>\<open>views_util.WithSpinner(message, fn)\<close> shows a spinner while \<^verbatim>\<open>fn\<close> runs and
  hands back what \<^verbatim>\<open>fn\<close> returned.\<close>

definition WithSpinner :: "string \<Rightarrow> error + 'a \<Rightarrow> error + 'a" where
  "WithSpinner message fn = fn"

section \<open>The namespace loop\<close>

text \<open>Lines 153 to 157 and 163 to 167: the name of the namespace with the chosen id,
  the last match winning; the variable keeps its value when there is none.\<close>

fun namespaceNameOf :: "string \<Rightarrow> GitNamespace list \<Rightarrow> string \<Rightarrow> string" where
  "namespaceNameOf namespace [] namespaceId = namespace"
| "namespaceNameOf namespace (namespaceItem # rest) namespaceId =
     namespaceNameOf
       (if ns_Id namespaceItem = namespaceId then ns_Name namespaceItem else namespace)
       rest namespaceId"

text \<open>Lines 117 to 168. The loop returns the chosen \<^verbatim>\<open>namespaceId\<close> and
  \<^verbatim>\<open>namespace\<close> when it breaks, and an error where the wizard returns.\<close>

fun namespaceLoop ::
  "env \<Rightarrow> int \<Rightarrow> string \<Rightarrow> nat \<Rightarrow> bool \<Rightarrow> string \<Rightarrow> int32 \<Rightarrow> (string \<times> string) list
    \<Rightarrow> (string \<times> string) run" where
  "namespaceLoop env projectOrder providerId n isOnlySingleNamespaceAvailable namespace page
      answers =
     (case WithSpinner ''Loading Namespaces'' (GetNamespaces env n providerId page 100) of
        Inl err \<Rightarrow>
          ([EvGetNamespaces providerId page 100 (Inl err)], Some (Inl err))
      | Inr namespaceList \<Rightarrow>
          if isOnlySingleNamespaceAvailable \<and> length namespaceList = 1 then
            ([EvGetNamespaces providerId page 100 (Inr namespaceList)],
             Some (Inr (ns_Id (namespaceList ! 0), ns_Name (namespaceList ! 0))))
          else
            (case answers of
               [] \<Rightarrow>
                 ([EvGetNamespaces providerId page 100 (Inr namespaceList),
                   EvGetNamespaceIdFromPrompt namespaceList projectOrder providerId
                     (namespacePaginationDisabled providerId) page 100 None],
                  None)
             | (namespaceId, navigate) # rest \<Rightarrow>
                 after
                   [EvGetNamespaces providerId page 100 (Inr namespaceList),
                    EvGetNamespaceIdFromPrompt namespaceList projectOrder providerId
                      (namespacePaginationDisabled providerId) page 100
                      (Some (namespaceId, navigate))]
                   (if \<not> namespacePaginationDisabled providerId \<and> navigate \<noteq> '''' then
                      (if navigate = ''next'' then
                         namespaceLoop env projectOrder providerId (n + 1) False namespace
                           (page + 1) rest
                       else if navigate = ''prev'' \<and> 1 < sint page then
                         namespaceLoop env projectOrder providerId (n + 1) False namespace
                           (page - 1) rest
                       else
                         namespaceLoop env projectOrder providerId (n + 1) False
                           (namespaceNameOf namespace namespaceList namespaceId) page rest)
                    else if namespaceId \<noteq> '''' then
                      ([], Some (Inr (namespaceId,
                                      namespaceNameOf namespace namespaceList namespaceId)))
                    else
                      ([], Some (Inl ErrCtrlCAbort)))))"

section \<open>The repository loop\<close>

text \<open>Lines 176 to 213. The loop returns the chosen repository when it breaks.\<close>

fun repositoryLoop ::
  "env \<Rightarrow> int \<Rightarrow> string \<Rightarrow> string \<Rightarrow> string \<Rightarrow> nat \<Rightarrow> int32
    \<Rightarrow> (GitRepository option \<times> string) list \<Rightarrow> GitRepository run" where
  "repositoryLoop env projectOrder providerId namespaceId parentIdentifier n page answers =
     (case WithSpinner ''Loading Repositories''
             (GetRepositories env n providerId namespaceId page 100) of
        Inl err \<Rightarrow>
          ([EvGetRepositories providerId namespaceId page 100 (Inl err)], Some (Inl err))
      | Inr providerRepos \<Rightarrow>
          (case answers of
             [] \<Rightarrow>
               ([EvGetRepositories providerId namespaceId page 100 (Inr providerRepos),
                 EvGetRepositoryFromPrompt providerRepos projectOrder parentIdentifier
                   (repositoryPaginationDisabled providerId) page 100 None],
                None)
           | (chosenRepo, navigate) # rest \<Rightarrow>
               after
                 [EvGetRepositories providerId namespaceId page 100 (Inr providerRepos),
                  EvGetRepositoryFromPrompt providerRepos projectOrder parentIdentifier
                    (repositoryPaginationDisabled providerId) page 100
                    (Some (chosenRepo, navigate))]
                 (if \<not> repositoryPaginationDisabled providerId \<and> navigate \<noteq> '''' then
                    (if navigate = ''next'' then
                       repositoryLoop env projectOrder providerId namespaceId parentIdentifier
                         (n + 1) (page + 1) rest
                     else if navigate = ''prev'' \<and> 1 < sint page then
                       repositoryLoop env projectOrder providerId namespaceId parentIdentifier
                         (n + 1) (page - 1) rest
                     else
                       repositoryLoop env projectOrder providerId namespaceId parentIdentifier
                         (n + 1) page rest)
                  else
                    (case chosenRepo of
                       Some repo \<Rightarrow> ([], Some (Inr repo))
                     | None \<Rightarrow> ([], Some (Inl ErrCtrlCAbort))))))"

section \<open>The wizard\<close>

text \<open>The argument of \<^verbatim>\<open>SetBranchFromWizard\<close>, lines 219 to 227.\<close>

definition branchWizardConfig ::
  "RepositoryWizardConfig \<Rightarrow> string \<Rightarrow> string \<Rightarrow> string \<Rightarrow> GitRepository \<Rightarrow> string
    \<Rightarrow> BranchWizardConfig" where
  "branchWizardConfig config gitProviderConfigId namespaceId namespace chosenRepo providerId =
     \<lparr> bw_GitProviderConfigId = gitProviderConfigId,
       bw_NamespaceId = namespaceId,
       bw_Namespace = namespace,
       bw_ChosenRepo = chosenRepo,
       bw_ProjectOrder = ProjectOrder config,
       bw_ProviderId = providerId \<rparr>"

text \<open>Lines 170 to 227: the repository stage and what follows it.\<close>

definition repositoryStage ::
  "env \<Rightarrow> RepositoryWizardConfig \<Rightarrow> string \<Rightarrow> string \<Rightarrow> string \<Rightarrow> string \<Rightarrow> GitRepository run" where
  "repositoryStage env config gitProviderConfigId providerId namespaceId namespace =
     (case repositoryLoop env (ProjectOrder config) providerId namespaceId
             (providerId @ ''/'' @ namespace) 0 1 (RepositoryPromptAnswers env) of
        (repositoryEvents, None) \<Rightarrow> (repositoryEvents, None)
      | (repositoryEvents, Some (Inl err)) \<Rightarrow> (repositoryEvents, Some (Inl err))
      | (repositoryEvents, Some (Inr chosenRepo)) \<Rightarrow>
          if SkipBranchSelection config then (repositoryEvents, Some (Inr chosenRepo))
          else
            (repositoryEvents @
               [EvSetBranchFromWizard
                  (branchWizardConfig config gitProviderConfigId namespaceId namespace
                     chosenRepo providerId)],
             Some (SetBranchFromWizard env
                  (branchWizardConfig config gitProviderConfigId namespaceId namespace
                     chosenRepo providerId))))"

text \<open>Lines 103 to 227: the flow through a configured provider.\<close>

definition providerFlow ::
  "env \<Rightarrow> RepositoryWizardConfig \<Rightarrow> GitProviderView list \<Rightarrow> string \<Rightarrow> GitRepository run" where
  "providerFlow env config gitProviderViewList gitProviderConfigId =
     (case namespaceLoop env (ProjectOrder config)
             (lookupProviderId '''' gitProviderViewList gitProviderConfigId) 0 True '''' 1
             (NamespacePromptAnswers env) of
        (namespaceEvents, None) \<Rightarrow> (namespaceEvents, None)
      | (namespaceEvents, Some (Inl err)) \<Rightarrow> (namespaceEvents, Some (Inl err))
      | (namespaceEvents, Some (Inr (namespaceId, namespace))) \<Rightarrow>
          after namespaceEvents
            (repositoryStage env config gitProviderConfigId
               (lookupProviderId '''' gitProviderViewList gitProviderConfigId)
               namespaceId namespace))"

text \<open>Lines 54 to 55 and 83 to 84: manual entry of a URL.\<close>

definition manualEntry :: "env \<Rightarrow> RepositoryWizardConfig \<Rightarrow> GitRepository run" where
  "manualEntry env config =
     ([EvGetRepositoryFromUrlInput (MultiProject config) (ProjectOrder config)],
      Some (GetRepositoryFromUrlInput env (MultiProject config) (ProjectOrder config)
              (SelectedRepos config)))"

text \<open>Lines 87 to 101: a repository from a sample.\<close>

definition sampleFlow :: "env \<Rightarrow> Sample list \<Rightarrow> GitRepository run" where
  "sampleFlow env samples =
     (case GetSampleFromPrompt env samples of
        None \<Rightarrow> ([EvGetSampleFromPrompt samples None], Some (Inl ErrCtrlCAbort))
      | Some sample \<Rightarrow>
          (case GetGitContext env (sample_GitUrl sample) of
             Inl (res, err) \<Rightarrow>
               ([EvGetSampleFromPrompt samples (Some sample),
                 EvGetGitContext (sample_GitUrl sample)],
                Some (Inl (HandleErrorResponse env res err)))
           | Inr repo \<Rightarrow>
               ([EvGetSampleFromPrompt samples (Some sample),
                 EvGetGitContext (sample_GitUrl sample)],
                Some (Inr repo))))"

text \<open>Lines 48 to 51: the samples are listed first; a failure is logged only.\<close>

definition listSamplesEvents :: "env \<Rightarrow> event list" where
  "listSamplesEvents env =
     (case ListSamples env of
        (samples, res, None) \<Rightarrow> [EvListSamples samples None]
      | (samples, res, Some err) \<Rightarrow>
          [EvListSamples samples (Some err), EvLogDebug (HandleErrorResponse env res err)])"

text \<open>Lines 78 to 227: what the wizard does with the answer of the provider prompt.\<close>

definition chosenSource ::
  "env \<Rightarrow> RepositoryWizardConfig \<Rightarrow> Sample list \<Rightarrow> GitProviderView list \<Rightarrow> string
    \<Rightarrow> GitRepository run" where
  "chosenSource env config samples gitProviderViewList gitProviderConfigId =
     (if gitProviderConfigId = '''' then ([], Some (Inl ErrCtrlCAbort))
      else if gitProviderConfigId = CustomRepoIdentifier env then manualEntry env config
      else if gitProviderConfigId = CREATE_FROM_SAMPLE env then sampleFlow env samples
      else providerFlow env config gitProviderViewList gitProviderConfigId)"

text \<open>Line 77: the provider prompt.\<close>

definition chooseSource ::
  "env \<Rightarrow> RepositoryWizardConfig \<Rightarrow> Sample list \<Rightarrow> GitProviderView list \<Rightarrow> GitRepository run" where
  "chooseSource env config samples gitProviderViewList =
     after
       [EvGetProviderIdFromPrompt gitProviderViewList (ProjectOrder config)
          (length samples > 0)
          (GetProviderIdFromPrompt env gitProviderViewList (ProjectOrder config)
             (length samples > 0))]
       (chosenSource env config samples gitProviderViewList
          (GetProviderIdFromPrompt env gitProviderViewList (ProjectOrder config)
             (length samples > 0)))"

definition getRepositoryFromWizard :: "env \<Rightarrow> RepositoryWizardConfig \<Rightarrow> GitRepository run" where
  "getRepositoryFromWizard env config =
     after (listSamplesEvents env)
       (if (length (UserGitProviders config) = 0 \<and> length (fst (ListSamples env)) = 0)
           \<or> Manual config then
          manualEntry env config
        else
          chooseSource env config (fst (ListSamples env))
            (buildGitProviderViewList [] (UserGitProviders config)
               (GetSupportedGitProviders env)))"

section \<open>Properties of runs\<close>

text \<open>Lines 145 to 151 and 200 to 206: the page the loop goes on with after the answer
  \<open>navigate\<close> at \<open>page\<close>, and the value of \<^verbatim>\<open>namespace\<close> the namespace loop goes on
  with.\<close>

definition pageAfter :: "int32 \<Rightarrow> string \<Rightarrow> int32" where
  "pageAfter page navigate =
     (if navigate = ''next'' then page + 1
      else if navigate = ''prev'' \<and> 1 < sint page then page - 1
      else page)"

definition namespaceAfter ::
  "string \<Rightarrow> GitNamespace list \<Rightarrow> string \<Rightarrow> int32 \<Rightarrow> string \<Rightarrow> string" where
  "namespaceAfter namespace namespaceList namespaceId page navigate =
     (if navigate = ''next'' \<or> (navigate = ''prev'' \<and> 1 < sint page) then namespace
      else namespaceNameOf namespace namespaceList namespaceId)"

text \<open>The user backed out at this prompt: no provider, no sample, or neither a
  selection nor a navigation.\<close>

fun cancelledAt :: "event \<Rightarrow> bool" where
  "cancelledAt (EvGetProviderIdFromPrompt views projectOrder hasSamples answer) =
     (answer = '''')"
| "cancelledAt (EvGetSampleFromPrompt samples answer) = (answer = None)"
| "cancelledAt (EvGetNamespaceIdFromPrompt l projectOrder providerId disabled page perPage
      answer) = (answer = Some ('''', ''''))"
| "cancelledAt (EvGetRepositoryFromPrompt l projectOrder parent disabled page perPage
      answer) = (answer = Some (None, ''''))"
| "cancelledAt _ = False"

text \<open>The error of a page fetch that failed.\<close>

fun fetchFailure :: "event \<Rightarrow> error option" where
  "fetchFailure (EvGetNamespaces providerId page perPage (Inl err)) = Some err"
| "fetchFailure (EvGetRepositories providerId namespaceId page perPage (Inl err)) = Some err"
| "fetchFailure _ = None"

text \<open>A page fetch that returned a page, and the prompt that shows that page.\<close>

fun fetchedItems :: "event \<Rightarrow> bool" where
  "fetchedItems (EvGetNamespaces providerId page perPage (Inr l)) = True"
| "fetchedItems (EvGetRepositories providerId namespaceId page perPage (Inr l)) = True"
| "fetchedItems _ = False"

fun promptShows :: "event \<Rightarrow> event \<Rightarrow> bool" where
  "promptShows (EvGetNamespaces providerId page perPage (Inr l))
     (EvGetNamespaceIdFromPrompt l' projectOrder providerId' disabled page' perPage' answer) =
     (l' = l \<and> providerId' = providerId \<and> page' = page \<and> perPage' = perPage)"
| "promptShows (EvGetRepositories providerId namespaceId page perPage (Inr l))
     (EvGetRepositoryFromPrompt l' projectOrder parent disabled page' perPage' answer) =
     (l' = l \<and> page' = page \<and> perPage' = perPage)"
| "promptShows _ _ = False"

text \<open>Every fetch that returned a page is followed at once by the prompt for it.\<close>

fun everyFetchPrompted :: "event list \<Rightarrow> bool" where
  "everyFetchPrompted [] = True"
| "everyFetchPrompted [e] = (\<not> fetchedItems e)"
| "everyFetchPrompted (e # e' # rest) =
     ((if fetchedItems e then promptShows e e' else True) \<and> everyFetchPrompted (e' # rest))"

text \<open>The page of a fetch, and the page and the navigation of an answered prompt.\<close>

fun fetchedPage :: "event \<Rightarrow> int32 option" where
  "fetchedPage (EvGetNamespaces providerId page perPage r) = Some page"
| "fetchedPage (EvGetRepositories providerId namespaceId page perPage r) = Some page"
| "fetchedPage _ = None"

fun answeredPage :: "event \<Rightarrow> (int32 \<times> string) option" where
  "answeredPage (EvGetNamespaceIdFromPrompt l projectOrder providerId disabled page perPage
      (Some (namespaceId, navigate))) = Some (page, navigate)"
| "answeredPage (EvGetRepositoryFromPrompt l projectOrder parent disabled page perPage
      (Some (chosenRepo, navigate))) = Some (page, navigate)"
| "answeredPage _ = None"

text \<open>Inside a loop, whatever follows an answered prompt is a fetch of the page that
  the answer leads to, and no fetch follows a fetch: one fetch for each answer.\<close>

fun oneFetchPerAnswer :: "event list \<Rightarrow> bool" where
  "oneFetchPerAnswer (e # e' # rest) =
     ((case answeredPage e of
         None \<Rightarrow> fetchedPage e = None \<or> fetchedPage e' = None
       | Some (page, navigate) \<Rightarrow> fetchedPage e' = Some (pageAfter page navigate))
      \<and> oneFetchPerAnswer (e' # rest))"
| "oneFetchPerAnswer _ = True"

text \<open>The number of page fetches of a run.\<close>

fun fetches :: "event list \<Rightarrow> nat" where
  "fetches [] = 0"
| "fetches (e # rest) = (if fetchedPage e = None then 0 else 1) + fetches rest"

text \<open>The repository prompt at which the user chose \<open>repo\<close>.\<close>

fun chosenAt :: "event \<Rightarrow> GitRepository option" where
  "chosenAt (EvGetRepositoryFromPrompt l projectOrder parent disabled page perPage
      (Some (Some repo, navigate))) =
     (if \<not> disabled \<and> navigate \<noteq> '''' then None else Some repo)"
| "chosenAt _ = None"

fun isSetBranchFromWizard :: "event \<Rightarrow> bool" where
  "isSetBranchFromWizard (EvSetBranchFromWizard c) = True"
| "isSetBranchFromWizard _ = False"

text \<open>A call that goes over the network: one of the API client's.\<close>

fun isApiCall :: "event \<Rightarrow> bool" where
  "isApiCall (EvListSamples samples err) = True"
| "isApiCall (EvGetGitContext url) = True"
| "isApiCall (EvGetNamespaces providerId page perPage r) = True"
| "isApiCall (EvGetRepositories providerId namespaceId page perPage r) = True"
| "isApiCall _ = False"

section \<open>An example environment\<close>

text \<open>One configured GitHub account, two namespaces on the first page and one on every
  later page, one repository in each namespace, no samples. The concrete runs below
  change it field by field.\<close>

definition sampleRepository :: "string \<Rightarrow> GitRepository" where
  "sampleRepository name =
     \<lparr> repo_Id = name, repo_Name = name, repo_Url = ''https://example.com/'' @ name,
       repo_Branch = '''', repo_Sha = '''', repo_Owner = ''acme'', repo_Source = ''example.com'' \<rparr>"

definition sampleEnv :: env where
  "sampleEnv =
     \<lparr> ListSamples = ([], None, None),
       HandleErrorResponse = (\<lambda>res err. err),
       GetRepositoryFromUrlInput = (\<lambda>multiProject projectOrder selectedRepos.
          Inr (sampleRepository ''typed'')),
       GetSupportedGitProviders =
         [\<lparr>sp_Id = ''github'', sp_Name = ''GitHub''\<rparr>,
          \<lparr>sp_Id = ''bitbucket'', sp_Name = ''Bitbucket''\<rparr>],
       GetProviderIdFromPrompt = (\<lambda>views projectOrder hasSamples. ''work''),
       CustomRepoIdentifier = ''<CUSTOM_REPO>'',
       CREATE_FROM_SAMPLE = ''<CREATE_FROM_SAMPLE>'',
       GetSampleFromPrompt = (\<lambda>samples. None),
       GetGitContext = (\<lambda>url. Inr (sampleRepository ''sample'')),
       GetNamespaces = (\<lambda>n providerId page perPage.
          if page = 1 then Inr [\<lparr>ns_Id = ''a'', ns_Name = ''Alpha''\<rparr>,
                                \<lparr>ns_Id = ''b'', ns_Name = ''Beta''\<rparr>]
          else Inr [\<lparr>ns_Id = ''c'', ns_Name = ''Gamma''\<rparr>]),
       NamespacePromptAnswers = [],
       GetRepositories = (\<lambda>n providerId namespaceId page perPage.
          Inr [sampleRepository ''one'']),
       RepositoryPromptAnswers = [],
       SetBranchFromWizard = (\<lambda>c. Inr ((bw_ChosenRepo c)\<lparr>repo_Branch := ''main''\<rparr>)) \<rparr>"

definition sampleConfig :: RepositoryWizardConfig where
  "sampleConfig =
     \<lparr> UserGitProviders =
         [\<lparr>gp_Id = ''work'', gp_ProviderId = ''github'', gp_Username = ''dev'', gp_Alias = ''w''\<rparr>],
       Manual = False, MultiProject = False, SkipBranchSelection = False,
       ProjectOrder = 0, SelectedRepos = Map.empty \<rparr>"

section \<open>One iteration of each loop\<close>

declare namespaceLoop.simps [simp del]
declare repositoryLoop.simps [simp del]

lemmas run_simps = getRepositoryFromWizard_def chooseSource_def chosenSource_def
  providerFlow_def repositoryStage_def manualEntry_def sampleFlow_def listSamplesEvents_def
  after_def WithSpinner_def namespaceLoop.simps repositoryLoop.simps
  sampleEnv_def sampleConfig_def sampleRepository_def toGitProviderView_def
  namespacePaginationDisabled_def repositoryPaginationDisabled_def branchWizardConfig_def

lemma namespaceLoop_fail:
  "GetNamespaces env n pid page 100 = Inl err \<Longrightarrow>
     namespaceLoop env po pid n b ns page answers =
       ([EvGetNamespaces pid page 100 (Inl err)], Some (Inl err))"
  by (subst namespaceLoop.simps) (simp add: WithSpinner_def)

lemma namespaceLoop_single:
  "GetNamespaces env n pid page 100 = Inr l \<Longrightarrow> b \<Longrightarrow> length l = 1 \<Longrightarrow>
     namespaceLoop env po pid n b ns page answers =
       ([EvGetNamespaces pid page 100 (Inr l)],
        Some (Inr (ns_Id (l ! 0), ns_Name (l ! 0))))"
  by (subst namespaceLoop.simps) (simp add: WithSpinner_def)

lemma namespaceLoop_waiting:
  "GetNamespaces env n pid page 100 = Inr l \<Longrightarrow> \<not> (b \<and> length l = 1) \<Longrightarrow>
     namespaceLoop env po pid n b ns page [] =
       ([EvGetNamespaces pid page 100 (Inr l),
         EvGetNamespaceIdFromPrompt l po pid (namespacePaginationDisabled pid) page 100 None],
        None)"
  by (subst namespaceLoop.simps) (auto simp add: WithSpinner_def)

lemma namespaceLoop_navigate:
  "GetNamespaces env n pid page 100 = Inr l \<Longrightarrow> \<not> (b \<and> length l = 1) \<Longrightarrow>
   \<not> namespacePaginationDisabled pid \<Longrightarrow> nav \<noteq> '''' \<Longrightarrow>
     namespaceLoop env po pid n b ns page ((x, nav) # rest) =
       after
         [EvGetNamespaces pid page 100 (Inr l),
          EvGetNamespaceIdFromPrompt l po pid False page 100 (Some (x, nav))]
         (namespaceLoop env po pid (n + 1) False (namespaceAfter ns l x page nav)
            (pageAfter page nav) rest)"
  by (subst namespaceLoop.simps) (auto simp add: WithSpinner_def pageAfter_def namespaceAfter_def)

lemma namespaceLoop_stop:
  "GetNamespaces env n pid page 100 = Inr l \<Longrightarrow> \<not> (b \<and> length l = 1) \<Longrightarrow>
   namespacePaginationDisabled pid \<or> nav = '''' \<Longrightarrow>
     namespaceLoop env po pid n b ns page ((x, nav) # rest) =
       ([EvGetNamespaces pid page 100 (Inr l),
         EvGetNamespaceIdFromPrompt l po pid (namespacePaginationDisabled pid) page 100
           (Some (x, nav))],
        Some (if x \<noteq> '''' then Inr (x, namespaceNameOf ns l x) else Inl ErrCtrlCAbort))"
  by (subst namespaceLoop.simps) (auto simp add: WithSpinner_def after_def)

lemma namespaceLoop_induct [case_names fail single waiting stop navigate]:
  assumes "\<And>n b ns page answers err.
      GetNamespaces env n pid page 100 = Inl err \<Longrightarrow> P n b ns page answers"
    and "\<And>n b ns page answers l.
      GetNamespaces env n pid page 100 = Inr l \<Longrightarrow> b \<Longrightarrow> length l = 1 \<Longrightarrow>
      P n b ns page answers"
    and "\<And>n b ns page l.
      GetNamespaces env n pid page 100 = Inr l \<Longrightarrow> \<not> (b \<and> length l = 1) \<Longrightarrow>
      P n b ns page []"
    and "\<And>n b ns page l x nav rest.
      GetNamespaces env n pid page 100 = Inr l \<Longrightarrow> \<not> (b \<and> length l = 1) \<Longrightarrow>
      namespacePaginationDisabled pid \<or> nav = '''' \<Longrightarrow>
      P n b ns page ((x, nav) # rest)"
    and "\<And>n b ns page l x nav rest.
      GetNamespaces env n pid page 100 = Inr l \<Longrightarrow> \<not> (b \<and> length l = 1) \<Longrightarrow>
      \<not> namespacePaginationDisabled pid \<Longrightarrow> nav \<noteq> '''' \<Longrightarrow>
      P (n + 1) False (namespaceAfter ns l x page nav) (pageAfter page nav) rest \<Longrightarrow>
      P n b ns page ((x, nav) # rest)"
  shows "P n b ns page answers"
proof (induction answers arbitrary: n b ns page)
  case Nil
  show ?case
  proof (cases "GetNamespaces env n pid page 100")
    case (Inl err)
    then show ?thesis by (rule assms(1))
  next
    case (Inr l)
    then show ?thesis
      by (cases "b \<and> length l = 1") (auto intro: assms(2) assms(3))
  qed
next
  case (Cons a rest)
  obtain x nav where a: "a = (x, nav)" by (cases a)
  show ?case
  proof (cases "GetNamespaces env n pid page 100")
    case (Inl err)
    then show ?thesis by (rule assms(1))
  next
    case (Inr l)
    show ?thesis
    proof (cases "b \<and> length l = 1")
      case True
      with Inr show ?thesis by (auto intro: assms(2))
    next
      case False
      show ?thesis
      proof (cases "namespacePaginationDisabled pid \<or> nav = ''''")
        case True
        from Inr False True show ?thesis unfolding a by (rule assms(4))
      next
        case nav: False
        from nav have "\<not> namespacePaginationDisabled pid" and "nav \<noteq> ''''" by auto
        with Inr False show ?thesis unfolding a
          by (rule assms(5)) (rule Cons.IH)
      qed
    qed
  qed
qed

lemma repositoryLoop_fail:
  "GetRepositories env n pid nsid page 100 = Inl err \<Longrightarrow>
     repositoryLoop env po pid nsid parent n page answers =
       ([EvGetRepositories pid nsid page 100 (Inl err)], Some (Inl err))"
  by (subst repositoryLoop.simps) (simp add: WithSpinner_def)

lemma repositoryLoop_waiting:
  "GetRepositories env n pid nsid page 100 = Inr l \<Longrightarrow>
     repositoryLoop env po pid nsid parent n page [] =
       ([EvGetRepositories pid nsid page 100 (Inr l),
         EvGetRepositoryFromPrompt l po parent (repositoryPaginationDisabled pid) page 100
           None],
        None)"
  by (subst repositoryLoop.simps) (simp add: WithSpinner_def)

lemma repositoryLoop_navigate:
  "GetRepositories env n pid nsid page 100 = Inr l \<Longrightarrow>
   \<not> repositoryPaginationDisabled pid \<Longrightarrow> nav \<noteq> '''' \<Longrightarrow>
     repositoryLoop env po pid nsid parent n page ((x, nav) # rest) =
       after
         [EvGetRepositories pid nsid page 100 (Inr l),
          EvGetRepositoryFromPrompt l po parent False page 100 (Some (x, nav))]
         (repositoryLoop env po pid nsid parent (n + 1) (pageAfter page nav) rest)"
  by (subst repositoryLoop.simps) (auto simp add: WithSpinner_def pageAfter_def)

lemma repositoryLoop_stop:
  "GetRepositories env n pid nsid page 100 = Inr l \<Longrightarrow>
   repositoryPaginationDisabled pid \<or> nav = '''' \<Longrightarrow>
     repositoryLoop env po pid nsid parent n page ((x, nav) # rest) =
       ([EvGetRepositories pid nsid page 100 (Inr l),
         EvGetRepositoryFromPrompt l po parent (repositoryPaginationDisabled pid) page 100
           (Some (x, nav))],
        Some (case x of Some repo \<Rightarrow> Inr repo | None \<Rightarrow> Inl ErrCtrlCAbort))"
  by (subst repositoryLoop.simps)
     (auto simp add: WithSpinner_def after_def split: option.splits)

lemma repositoryLoop_induct [case_names fail waiting stop navigate]:
  assumes "\<And>n page answers err.
      GetRepositories env n pid nsid page 100 = Inl err \<Longrightarrow> P n page answers"
    and "\<And>n page l. GetRepositories env n pid nsid page 100 = Inr l \<Longrightarrow> P n page []"
    and "\<And>n page l x nav rest.
      GetRepositories env n pid nsid page 100 = Inr l \<Longrightarrow>
      repositoryPaginationDisabled pid \<or> nav = '''' \<Longrightarrow>
      P n page ((x, nav) # rest)"
    and "\<And>n page l x nav rest.
      GetRepositories env n pid nsid page 100 = Inr l \<Longrightarrow>
      \<not> repositoryPaginationDisabled pid \<Longrightarrow> nav \<noteq> '''' \<Longrightarrow>
      P (n + 1) (pageAfter page nav) rest \<Longrightarrow>
      P n page ((x, nav) # rest)"
  shows "P n page answers"
proof (induction answers arbitrary: n page)
  case Nil
  show ?case
    by (cases "GetRepositories env n pid nsid page 100") (auto intro: assms(1) assms(2))
next
  case (Cons a rest)
  obtain x nav where a: "a = (x, nav)" by (cases a)
  show ?case
  proof (cases "GetRepositories env n pid nsid page 100")
    case (Inl err)
    then show ?thesis by (rule assms(1))
  next
    case (Inr l)
    show ?thesis
    proof (cases "repositoryPaginationDisabled pid \<or> nav = ''''")
      case True
      from Inr True show ?thesis unfolding a by (rule assms(3))
    next
      case nav: False
      from nav have "\<not> repositoryPaginationDisabled pid" and "nav \<noteq> ''''" by auto
      with Inr show ?thesis unfolding a
        by (rule assms(4)) (rule Cons.IH)
    qed
  qed
qed

section \<open>Claims\<close>

text \<open>
  C1. The pagination quirk holds for exactly the four providers azure-devops, bitbucket,
  gitness and aws-codecommit. The namespace loop takes it as it is; the repository loop
  takes it for all of them but bitbucket, the one provider for which the two tests differ.
\<close>

theorem pagination_quirks:
  "(isGitProviderWithUnsupportedPagination providerId \<longleftrightarrow>
      providerId \<in> {''azure-devops'', ''bitbucket'', ''gitness'', ''aws-codecommit''})
   \<and> (namespacePaginationDisabled providerId \<longleftrightarrow>
      providerId \<in> {''azure-devops'', ''bitbucket'', ''gitness'', ''aws-codecommit''})
   \<and> (repositoryPaginationDisabled providerId \<longleftrightarrow>
      providerId \<in> {''azure-devops'', ''gitness'', ''aws-codecommit''})
   \<and> (namespacePaginationDisabled providerId \<noteq> repositoryPaginationDisabled providerId \<longleftrightarrow>
      providerId = ''bitbucket'')
   \<and> \<not> repositoryPaginationDisabled ''bitbucket''
   \<and> namespacePaginationDisabled ''bitbucket''"
  by (auto simp: namespacePaginationDisabled_def repositoryPaginationDisabled_def)










text \<open>
  C10. \<^verbatim>\<open>GetRepoBranches\<close> returns an error exactly when the provider lookup or the
  provider's branch listing fails, the error wrapped with
  \<^verbatim>\<open>failed to get git provider: \<close> or \<^verbatim>\<open>failed to get branches: \<close>; otherwise it returns
  the provider's branch list as it is.
\<close>

theorem GetRepoBranches_errors:
  "((\<exists>err. GetRepoBranches GetGitProvider gitProviderId namespaceId repositoryId options = Inl err)
      \<longleftrightarrow> (\<exists>err. GetGitProvider gitProviderId = Inl err)
        \<or> (\<exists>gitProvider err. GetGitProvider gitProviderId = Inr gitProvider
              \<and> gitProvider repositoryId namespaceId options = Inl err))
   \<and> (\<forall>err. GetGitProvider gitProviderId = Inl err \<longrightarrow>
         (\<exists>wrapped.
            GetRepoBranches GetGitProvider gitProviderId namespaceId repositoryId options
              = Inl wrapped
            \<and> Error wrapped = ''failed to get git provider: '' @ Error err
            \<and> Unwrap wrapped = Some err))
   \<and> (\<forall>gitProvider err. GetGitProvider gitProviderId = Inr gitProvider
         \<and> gitProvider repositoryId namespaceId options = Inl err \<longrightarrow>
         (\<exists>wrapped.
            GetRepoBranches GetGitProvider gitProviderId namespaceId repositoryId options
              = Inl wrapped
            \<and> Error wrapped = ''failed to get branches: '' @ Error err
            \<and> Unwrap wrapped = Some err))
   \<and> (\<forall>gitProvider response. GetGitProvider gitProviderId = Inr gitProvider
         \<and> gitProvider repositoryId namespaceId options = Inr response \<longrightarrow>
         GetRepoBranches GetGitProvider gitProviderId namespaceId repositoryId options
           = Inr response)"
  by (auto simp: GetRepoBranches_def split: sum.splits)

theorem GetRepoBranches_errors_witness:
  "GetRepoBranches
     (\<lambda>gitProviderId. if gitProviderId = ''gh'' then
         Inr (\<lambda>repositoryId namespaceId options.
                if repositoryId = ''repo'' then Inr [\<lparr>branch_Name = ''main'', branch_Sha = ''abc''\<rparr>]
                else Inl (OtherError ''not found''))
       else Inl (OtherError ''unknown provider''))
     ''gh'' ''ns'' ''repo'' \<lparr>opt_Page = 1, opt_PerPage = 100\<rparr>
     = Inr [\<lparr>branch_Name = ''main'', branch_Sha = ''abc''\<rparr>]
   \<and> (\<exists>wrapped.
        GetRepoBranches
          (\<lambda>gitProviderId. if gitProviderId = ''gh'' then
              Inr (\<lambda>repositoryId namespaceId options.
                     if repositoryId = ''repo'' then Inr [\<lparr>branch_Name = ''main'', branch_Sha = ''abc''\<rparr>]
                     else Inl (OtherError ''not found''))
            else Inl (OtherError ''unknown provider''))
          ''gl'' ''ns'' ''repo'' \<lparr>opt_Page = 1, opt_PerPage = 100\<rparr> = Inl wrapped
        \<and> Error wrapped = ''failed to get git provider: unknown provider'')"
  using GetRepoBranches_errors [of
     "\<lambda>gitProviderId. if gitProviderId = ''gh'' then
         Inr (\<lambda>repositoryId namespaceId options.
                if repositoryId = ''repo'' then Inr [\<lparr>branch_Name = ''main'', branch_Sha = ''abc''\<rparr>]
                else Inl (OtherError ''not found''))
       else Inl (OtherError ''unknown provider'')"
     "''gh''" "''ns''" "''repo''" "\<lparr>opt_Page = 1, opt_PerPage = 100\<rparr>"]
    GetRepoBranches_errors [of
     "\<lambda>gitProviderId. if gitProviderId = ''gh'' then
         Inr (\<lambda>repositoryId namespaceId options.
                if repositoryId = ''repo'' then Inr [\<lparr>branch_Name = ''main'', branch_Sha = ''abc''\<rparr>]
                else Inl (OtherError ''not found''))
       else Inl (OtherError ''unknown provider'')"
     "''gl''" "''ns''" "''repo''" "\<lparr>opt_Page = 1, opt_PerPage = 100\<rparr>"]
  by auto

lemma namespaceLoop_nonempty: "fst (namespaceLoop env po pid n b ns page answers) \<noteq> []"
  by (induction n b ns page answers rule: namespaceLoop_induct [where env = env and pid = pid])
     (simp_all add: namespaceLoop_fail namespaceLoop_single namespaceLoop_waiting
        namespaceLoop_stop namespaceLoop_navigate after_def)

lemma repositoryLoop_nonempty:
  "fst (repositoryLoop env po pid nsid parent n page answers) \<noteq> []"
  by (induction n page answers
        rule: repositoryLoop_induct [where env = env and pid = pid and nsid = nsid])
     (simp_all add: repositoryLoop_fail repositoryLoop_waiting repositoryLoop_stop
        repositoryLoop_navigate after_def)

lemma namespaceLoop_cancelled:
  "c \<in> set (fst (namespaceLoop env po pid n b ns page answers)) \<Longrightarrow> cancelledAt c \<Longrightarrow>
     snd (namespaceLoop env po pid n b ns page answers) = Some (Inl ErrCtrlCAbort)
     \<and> last (fst (namespaceLoop env po pid n b ns page answers)) = c"
proof (induction n b ns page answers rule: namespaceLoop_induct [where env = env and pid = pid])
  case (fail n b ns page answers err)
  then show ?case by (simp add: namespaceLoop_fail)
next
  case (single n b ns page answers l)
  then show ?case by (simp add: namespaceLoop_single)
next
  case (waiting n b ns page l)
  then show ?case by (auto simp add: namespaceLoop_waiting)
next
  case (stop n b ns page l x nav rest)
  from stop.prems show ?case
    unfolding namespaceLoop_stop [OF stop.hyps] by auto
next
  case (navigate n b ns page l x nav rest)
  from navigate.prems navigate.hyps(4) navigate.IH show ?case
    unfolding namespaceLoop_navigate [OF navigate.hyps(1-4)]
    by (auto simp: after_def namespaceLoop_nonempty)
qed

lemma repositoryLoop_cancelled:
  "c \<in> set (fst (repositoryLoop env po pid nsid parent n page answers)) \<Longrightarrow> cancelledAt c \<Longrightarrow>
     snd (repositoryLoop env po pid nsid parent n page answers) = Some (Inl ErrCtrlCAbort)
     \<and> last (fst (repositoryLoop env po pid nsid parent n page answers)) = c"
proof (induction n page answers
    rule: repositoryLoop_induct [where env = env and pid = pid and nsid = nsid])
  case (fail n page answers err)
  then show ?case by (simp add: repositoryLoop_fail)
next
  case (waiting n page l)
  then show ?case by (auto simp add: repositoryLoop_waiting)
next
  case (stop n page l x nav rest)
  from stop.prems show ?case
    unfolding repositoryLoop_stop [OF stop.hyps] by (auto split: option.splits)
next
  case (navigate n page l x nav rest)
  from navigate.prems navigate.hyps(3) navigate.IH show ?case
    unfolding repositoryLoop_navigate [OF navigate.hyps(1-3)]
    by (auto simp: after_def repositoryLoop_nonempty)
qed

lemma repositoryStage_cancelled:
  assumes "c \<in> set (fst (repositoryStage env config cid pid nsid ns))" and "cancelledAt c"
  shows "snd (repositoryStage env config cid pid nsid ns) = Some (Inl ErrCtrlCAbort)
     \<and> last (fst (repositoryStage env config cid pid nsid ns)) = c"
proof -
  let ?r = "repositoryLoop env (ProjectOrder config) pid nsid (pid @ ''/'' @ ns) 0 1
              (RepositoryPromptAnswers env)"
  have c: "c \<in> set (fst ?r)"
    using assms by (auto simp: repositoryStage_def split: prod.splits option.splits sum.splits if_splits)
  from repositoryLoop_cancelled [OF c assms(2)] show ?thesis
    by (auto simp: repositoryStage_def split: prod.splits option.splits sum.splits)
qed

lemma repositoryStage_nonempty: "fst (repositoryStage env config cid pid nsid ns) \<noteq> []"
  using repositoryLoop_nonempty [of env "ProjectOrder config" pid nsid "pid @ ''/'' @ ns" 0 1
      "RepositoryPromptAnswers env"]
  by (auto simp: repositoryStage_def split: prod.splits option.splits sum.splits)

lemma providerFlow_cancelled:
  assumes "c \<in> set (fst (providerFlow env config views cid))" and "cancelledAt c"
  shows "snd (providerFlow env config views cid) = Some (Inl ErrCtrlCAbort)
     \<and> last (fst (providerFlow env config views cid)) = c"
proof -
  let ?pid = "lookupProviderId '''' views cid"
  let ?r = "namespaceLoop env (ProjectOrder config) ?pid 0 True '''' 1
              (NamespacePromptAnswers env)"
  show ?thesis
  proof (cases "c \<in> set (fst ?r)")
    case True
    from namespaceLoop_cancelled [OF True assms(2)] show ?thesis
      by (auto simp: providerFlow_def split: prod.splits option.splits sum.splits)
  next
    case False
    with assms repositoryStage_cancelled [of c env config cid ?pid _ _] show ?thesis
      by (auto simp: providerFlow_def after_def repositoryStage_nonempty
            split: prod.splits option.splits sum.splits)
  qed
qed

lemma providerFlow_nonempty: "fst (providerFlow env config views cid) \<noteq> []"
  using namespaceLoop_nonempty [of env "ProjectOrder config" "lookupProviderId '''' views cid"
      0 True "''''" 1 "NamespacePromptAnswers env"]
  by (auto simp: providerFlow_def after_def split: prod.splits option.splits sum.splits)

lemma sampleFlow_cancelled:
  "c \<in> set (fst (sampleFlow env samples)) \<Longrightarrow> cancelledAt c \<Longrightarrow>
     snd (sampleFlow env samples) = Some (Inl ErrCtrlCAbort)
     \<and> last (fst (sampleFlow env samples)) = c"
  by (auto simp: sampleFlow_def split: option.splits sum.splits prod.splits)

lemma chosenSource_cancelled:
  assumes "c \<in> set (fst (chosenSource env config samples views cid))" and "cancelledAt c"
  shows "snd (chosenSource env config samples views cid) = Some (Inl ErrCtrlCAbort)
     \<and> last (fst (chosenSource env config samples views cid)) = c"
  using assms sampleFlow_cancelled [of c env samples]
    providerFlow_cancelled [of c env config views cid]
  by (auto simp: chosenSource_def manualEntry_def split: if_splits)

lemma chosenSource_nonempty:
  "cid \<noteq> '''' \<Longrightarrow> fst (chosenSource env config samples views cid) \<noteq> []"
  by (auto simp: chosenSource_def manualEntry_def providerFlow_nonempty sampleFlow_def
        split: option.splits sum.splits prod.splits)

lemma chosenSource_abort:
  "chosenSource env config samples views '''' = ([], Some (Inl ErrCtrlCAbort))"
  by (simp add: chosenSource_def)

lemma chooseSource_cancelled:
  assumes "c \<in> set (fst (chooseSource env config samples views))" and "cancelledAt c"
  shows "snd (chooseSource env config samples views) = Some (Inl ErrCtrlCAbort)
     \<and> last (fst (chooseSource env config samples views)) = c"
proof (cases "GetProviderIdFromPrompt env views (ProjectOrder config) (length samples > 0) = ''''")
  case True
  with assms show ?thesis
    unfolding chooseSource_def by (auto simp: after_def chosenSource_abort)
next
  case False
  with assms chosenSource_nonempty [OF False, of env config samples views]
    chosenSource_cancelled [of c env config samples views, OF _ assms(2)]
  show ?thesis
    unfolding chooseSource_def by (auto simp: after_def)
qed

lemma listSamplesEvents_not_cancelled: "c \<in> set (listSamplesEvents env) \<Longrightarrow> \<not> cancelledAt c"
  by (auto simp: listSamplesEvents_def split: prod.splits option.splits)

lemma chooseSource_nonempty: "fst (chooseSource env config samples views) \<noteq> []"
  by (simp add: chooseSource_def after_def)

text \<open>
  C4. Whenever the user backs out at a prompt of the wizard (the provider prompt, the
  sample prompt, a namespace prompt or a repository prompt), the wizard returns
  \<^verbatim>\<open>ErrCtrlCAbort\<close> itself, and that prompt is the last thing the run did: after a
  cancellation at the namespace stage no repository or branch is fetched.
\<close>

theorem cancellation_propagates:
  "\<forall>c \<in> set (fst (getRepositoryFromWizard env config)). cancelledAt c \<longrightarrow>
     snd (getRepositoryFromWizard env config) = Some (Inl ErrCtrlCAbort)
     \<and> last (fst (getRepositoryFromWizard env config)) = c"
  using chooseSource_cancelled [of _ env config] listSamplesEvents_not_cancelled [of _ env]
  by (auto simp: getRepositoryFromWizard_def after_def manualEntry_def chooseSource_nonempty)

theorem cancellation_propagates_witness:
  "cancelledAt (EvGetNamespaceIdFromPrompt [\<lparr>ns_Id = ''c'', ns_Name = ''Gamma''\<rparr>] 0
      ''github'' False 2 100 (Some ('''', '''')))
   \<and> getRepositoryFromWizard
       (sampleEnv\<lparr>NamespacePromptAnswers := [('''', ''next''), ('''', '''')]\<rparr>) sampleConfig =
     ([EvListSamples [] None,
       EvGetProviderIdFromPrompt
         [\<lparr>gv_Id = ''work'', gv_ProviderId = ''github'', gv_Name = ''GitHub'',
            gv_Username = ''dev'', gv_Alias = ''w''\<rparr>]
         0 False ''work'',
       EvGetNamespaces ''github'' 1 100
         (Inr [\<lparr>ns_Id = ''a'', ns_Name = ''Alpha''\<rparr>, \<lparr>ns_Id = ''b'', ns_Name = ''Beta''\<rparr>]),
       EvGetNamespaceIdFromPrompt
         [\<lparr>ns_Id = ''a'', ns_Name = ''Alpha''\<rparr>, \<lparr>ns_Id = ''b'', ns_Name = ''Beta''\<rparr>]
         0 ''github'' False 1 100 (Some ('''', ''next'')),
       EvGetNamespaces ''github'' 2 100 (Inr [\<lparr>ns_Id = ''c'', ns_Name = ''Gamma''\<rparr>]),
       EvGetNamespaceIdFromPrompt [\<lparr>ns_Id = ''c'', ns_Name = ''Gamma''\<rparr>] 0
         ''github'' False 2 100 (Some ('''', ''''))],
      Some (Inl ErrCtrlCAbort))"
  using cancellation_propagates [of
      "sampleEnv\<lparr>NamespacePromptAnswers := [('''', ''next''), ('''', '''')]\<rparr>" sampleConfig]
  by (simp add: run_simps)

lemma everyFetchPrompted_append:
  "everyFetchPrompted xs \<Longrightarrow> everyFetchPrompted ys \<Longrightarrow> everyFetchPrompted (xs @ ys)"
proof (induction xs rule: everyFetchPrompted.induct)
  case 1
  then show ?case by simp
next
  case (2 e)
  then show ?case by (cases ys) auto
next
  case (3 e e' rest)
  then show ?case by auto
qed

lemma namespaceLoop_prompted:
  "(b \<longrightarrow> (\<forall>l. GetNamespaces env n pid page 100 = Inr l \<longrightarrow> length l \<noteq> 1)) \<longrightarrow>
     everyFetchPrompted (fst (namespaceLoop env po pid n b ns page answers))"
proof (induction n b ns page answers rule: namespaceLoop_induct [where env = env and pid = pid])
  case (fail n b ns page answers err)
  then show ?case by (simp add: namespaceLoop_fail)
next
  case (single n b ns page answers l)
  then show ?case by simp
next
  case (waiting n b ns page l)
  then show ?case by (simp add: namespaceLoop_waiting)
next
  case (stop n b ns page l x nav rest)
  show ?case unfolding namespaceLoop_stop [OF stop.hyps] by simp
next
  case (navigate n b ns page l x nav rest)
  from navigate.IH show ?case
    unfolding namespaceLoop_navigate [OF navigate.hyps(1-4)]
    by (cases "fst (namespaceLoop env po pid (n + 1) False (namespaceAfter ns l x page nav)
          (pageAfter page nav) rest)") (simp_all add: after_def)
qed

lemma repositoryLoop_prompted:
  "everyFetchPrompted (fst (repositoryLoop env po pid nsid parent n page answers))"
proof (induction n page answers
    rule: repositoryLoop_induct [where env = env and pid = pid and nsid = nsid])
  case (fail n page answers err)
  then show ?case by (simp add: repositoryLoop_fail)
next
  case (waiting n page l)
  then show ?case by (simp add: repositoryLoop_waiting)
next
  case (stop n page l x nav rest)
  show ?case unfolding repositoryLoop_stop [OF stop.hyps] by simp
next
  case (navigate n page l x nav rest)
  from navigate.IH show ?case
    unfolding repositoryLoop_navigate [OF navigate.hyps(1-3)]
    by (cases "fst (repositoryLoop env po pid nsid parent (n + 1) (pageAfter page nav) rest)")
       (simp_all add: after_def)
qed

lemma repositoryStage_prompted:
  "everyFetchPrompted (fst (repositoryStage env config cid pid nsid ns))"
  using repositoryLoop_prompted [of env "ProjectOrder config" pid nsid "pid @ ''/'' @ ns" 0 1
      "RepositoryPromptAnswers env"]
  by (auto simp: repositoryStage_def everyFetchPrompted_append
        split: prod.splits option.splits sum.splits)

lemma repositoryLoop_starts:
  "\<exists>r t. fst (repositoryLoop env po pid nsid parent n page answers) =
     EvGetRepositories pid nsid page 100 r # t"
  by (subst repositoryLoop.simps)
     (auto simp: after_def WithSpinner_def split: sum.splits list.splits)

lemma repositoryStage_starts:
  "\<exists>r t. fst (repositoryStage env config cid pid nsid ns) =
     EvGetRepositories pid nsid 1 100 r # t"
  using repositoryLoop_starts [of env "ProjectOrder config" pid nsid "pid @ ''/'' @ ns" 0 1
      "RepositoryPromptAnswers env"]
  by (auto simp: repositoryStage_def split: prod.splits option.splits sum.splits)

lemma providerFlow_single:
  assumes "GetNamespaces env 0 (lookupProviderId '''' views cid) 1 100 = Inr [namespace]"
  shows "providerFlow env config views cid =
     after [EvGetNamespaces (lookupProviderId '''' views cid) 1 100 (Inr [namespace])]
       (repositoryStage env config cid (lookupProviderId '''' views cid)
          (ns_Id namespace) (ns_Name namespace))"
  using namespaceLoop_single [OF assms, of True "ProjectOrder config" "''''"
      "NamespacePromptAnswers env"]
  by (simp add: providerFlow_def)

lemma providerFlow_prompted:
  assumes "\<not> (\<exists>namespace. GetNamespaces env 0 (lookupProviderId '''' views cid) 1 100
      = Inr [namespace])"
  shows "everyFetchPrompted (fst (providerFlow env config views cid))"
proof -
  let ?pid = "lookupProviderId '''' views cid"
  have "\<forall>l. GetNamespaces env 0 ?pid 1 100 = Inr l \<longrightarrow> length l \<noteq> 1"
    using assms by (auto simp: length_Suc_conv)
  then have "everyFetchPrompted (fst (namespaceLoop env (ProjectOrder config) ?pid 0 True ''''
      1 (NamespacePromptAnswers env)))"
    using namespaceLoop_prompted by blast
  then show ?thesis
    by (auto simp: providerFlow_def after_def everyFetchPrompted_append repositoryStage_prompted
          split: prod.splits option.splits sum.splits)
qed

lemma providerFlow_asks:
  assumes "GetNamespaces env 0 (lookupProviderId '''' views cid) 1 100 = Inr l"
    and "length l \<noteq> 1"
  shows "\<exists>answer t. fst (providerFlow env config views cid) =
     EvGetNamespaces (lookupProviderId '''' views cid) 1 100 (Inr l)
     # EvGetNamespaceIdFromPrompt l (ProjectOrder config) (lookupProviderId '''' views cid)
         (namespacePaginationDisabled (lookupProviderId '''' views cid)) 1 100 answer
     # t"
proof -
  let ?pid = "lookupProviderId '''' views cid"
  have "\<exists>answer t. fst (namespaceLoop env (ProjectOrder config) ?pid 0 True '''' 1
      (NamespacePromptAnswers env)) =
     EvGetNamespaces ?pid 1 100 (Inr l)
     # EvGetNamespaceIdFromPrompt l (ProjectOrder config) ?pid
         (namespacePaginationDisabled ?pid) 1 100 answer # t"
    using assms
    by (subst namespaceLoop.simps)
       (auto simp: after_def WithSpinner_def split: list.splits)
  then show ?thesis
    by (auto simp: providerFlow_def after_def split: prod.splits option.splits sum.splits)
qed

text \<open>
  C2. In the flow through a provider, a fetch that returned a page is left without its
  prompt exactly when the very first namespace fetch returns exactly one namespace: then
  that namespace is taken and the repository stage starts at once. With any other first
  page (none, two or more) the namespace prompt is shown for it, and so is the prompt
  after every later fetch, whatever its size. The repository stage shows the prompt after
  every fetch that returned a page.
\<close>

theorem single_namespace_short_circuit:
  "(everyFetchPrompted (fst (providerFlow env config views cid)) \<longleftrightarrow>
      \<not> (\<exists>namespace. GetNamespaces env 0 (lookupProviderId '''' views cid) 1 100
            = Inr [namespace]))
   \<and> (\<forall>namespace. GetNamespaces env 0 (lookupProviderId '''' views cid) 1 100
          = Inr [namespace] \<longrightarrow>
        providerFlow env config views cid =
          after [EvGetNamespaces (lookupProviderId '''' views cid) 1 100 (Inr [namespace])]
            (repositoryStage env config cid (lookupProviderId '''' views cid)
               (ns_Id namespace) (ns_Name namespace)))
   \<and> (\<forall>l. GetNamespaces env 0 (lookupProviderId '''' views cid) 1 100 = Inr l
          \<and> length l \<noteq> 1 \<longrightarrow>
        (\<exists>answer t. fst (providerFlow env config views cid) =
           EvGetNamespaces (lookupProviderId '''' views cid) 1 100 (Inr l)
           # EvGetNamespaceIdFromPrompt l (ProjectOrder config)
               (lookupProviderId '''' views cid)
               (namespacePaginationDisabled (lookupProviderId '''' views cid)) 1 100 answer
           # t))
   \<and> everyFetchPrompted (fst (repositoryStage env config cid providerId namespaceId name))"
proof (intro conjI allI impI)
  show "everyFetchPrompted (fst (providerFlow env config views cid)) \<longleftrightarrow>
      \<not> (\<exists>namespace. GetNamespaces env 0 (lookupProviderId '''' views cid) 1 100
            = Inr [namespace])"
  proof
    assume prompted: "everyFetchPrompted (fst (providerFlow env config views cid))"
    show "\<not> (\<exists>namespace. GetNamespaces env 0 (lookupProviderId '''' views cid) 1 100
            = Inr [namespace])"
    proof
      assume "\<exists>namespace. GetNamespaces env 0 (lookupProviderId '''' views cid) 1 100
            = Inr [namespace]"
      then obtain namespace where
        "GetNamespaces env 0 (lookupProviderId '''' views cid) 1 100 = Inr [namespace]" ..
      from providerFlow_single [OF this, of config] prompted
        repositoryStage_starts [of env config cid "lookupProviderId '''' views cid"
          "ns_Id namespace" "ns_Name namespace"]
      show False by (auto simp: after_def)
    qed
  next
    assume "\<not> (\<exists>namespace. GetNamespaces env 0 (lookupProviderId '''' views cid) 1 100
            = Inr [namespace])"
    then show "everyFetchPrompted (fst (providerFlow env config views cid))"
      by (rule providerFlow_prompted)
  qed
next
  fix namespace
  assume "GetNamespaces env 0 (lookupProviderId '''' views cid) 1 100 = Inr [namespace]"
  then show "providerFlow env config views cid =
          after [EvGetNamespaces (lookupProviderId '''' views cid) 1 100 (Inr [namespace])]
            (repositoryStage env config cid (lookupProviderId '''' views cid)
               (ns_Id namespace) (ns_Name namespace))"
    by (rule providerFlow_single)
next
  fix l
  assume "GetNamespaces env 0 (lookupProviderId '''' views cid) 1 100 = Inr l
          \<and> length l \<noteq> 1"
  then show "\<exists>answer t. fst (providerFlow env config views cid) =
           EvGetNamespaces (lookupProviderId '''' views cid) 1 100 (Inr l)
           # EvGetNamespaceIdFromPrompt l (ProjectOrder config)
               (lookupProviderId '''' views cid)
               (namespacePaginationDisabled (lookupProviderId '''' views cid)) 1 100 answer
           # t"
    using providerFlow_asks by blast
next
  show "everyFetchPrompted (fst (repositoryStage env config cid providerId namespaceId name))"
    by (rule repositoryStage_prompted)
qed

theorem single_namespace_short_circuit_witness:
  "GetNamespaces
     (sampleEnv\<lparr>GetNamespaces := (\<lambda>n providerId page perPage.
                     Inr [\<lparr>ns_Id = ''c'', ns_Name = ''Gamma''\<rparr>]),
                RepositoryPromptAnswers := [(Some (sampleRepository ''one''), '''')]\<rparr>)
     0 (lookupProviderId ''''
          [\<lparr>gv_Id = ''work'', gv_ProviderId = ''github'', gv_Name = ''GitHub'',
             gv_Username = ''dev'', gv_Alias = ''w''\<rparr>] ''work'') 1 100
     = Inr [\<lparr>ns_Id = ''c'', ns_Name = ''Gamma''\<rparr>]
   \<and> providerFlow
       (sampleEnv\<lparr>GetNamespaces := (\<lambda>n providerId page perPage.
                       Inr [\<lparr>ns_Id = ''c'', ns_Name = ''Gamma''\<rparr>]),
                  RepositoryPromptAnswers := [(Some (sampleRepository ''one''), '''')]\<rparr>)
       (sampleConfig\<lparr>SkipBranchSelection := True\<rparr>)
       [\<lparr>gv_Id = ''work'', gv_ProviderId = ''github'', gv_Name = ''GitHub'',
          gv_Username = ''dev'', gv_Alias = ''w''\<rparr>] ''work''
     = ([EvGetNamespaces ''github'' 1 100 (Inr [\<lparr>ns_Id = ''c'', ns_Name = ''Gamma''\<rparr>]),
         EvGetRepositories ''github'' ''c'' 1 100 (Inr [sampleRepository ''one'']),
         EvGetRepositoryFromPrompt [sampleRepository ''one''] 0 ''github/Gamma'' False 1 100
           (Some (Some (sampleRepository ''one''), ''''))],
        Some (Inr (sampleRepository ''one'')))
   \<and> \<not> everyFetchPrompted (fst (providerFlow
       (sampleEnv\<lparr>GetNamespaces := (\<lambda>n providerId page perPage.
                       Inr [\<lparr>ns_Id = ''c'', ns_Name = ''Gamma''\<rparr>]),
                  RepositoryPromptAnswers := [(Some (sampleRepository ''one''), '''')]\<rparr>)
       (sampleConfig\<lparr>SkipBranchSelection := True\<rparr>)
       [\<lparr>gv_Id = ''work'', gv_ProviderId = ''github'', gv_Name = ''GitHub'',
          gv_Username = ''dev'', gv_Alias = ''w''\<rparr>] ''work''))"
  using single_namespace_short_circuit [of
      "sampleEnv\<lparr>GetNamespaces := (\<lambda>n providerId page perPage.
                       Inr [\<lparr>ns_Id = ''c'', ns_Name = ''Gamma''\<rparr>]),
                  RepositoryPromptAnswers := [(Some (sampleRepository ''one''), '''')]\<rparr>"
      "sampleConfig\<lparr>SkipBranchSelection := True\<rparr>"
      "[\<lparr>gv_Id = ''work'', gv_ProviderId = ''github'', gv_Name = ''GitHub'',
          gv_Username = ''dev'', gv_Alias = ''w''\<rparr>]" "''work''"]
  by (simp add: run_simps)

lemma sint_next_page:
  fixes page :: int32
  assumes "sint page < 2147483647"
  shows "sint (page + 1) = sint page + 1"
proof -
  have lo: "- (2 ^ 31) \<le> sint page" using sint_ge [of page] by simp
  have "sint (page + 1) = signed_take_bit 31 (sint page + 1)"
    by (simp add: sint_word_ariths)
  also have "\<dots> = sint page + 1"
    by (rule signed_take_bit_int_eq_self) (use lo assms in simp_all)
  finally show ?thesis .
qed

lemma sint_prev_page:
  fixes page :: int32
  assumes "1 < sint page"
  shows "sint (page - 1) = sint page - 1"
proof -
  have hi: "sint page < 2 ^ 31" using sint_lt [of page] by simp
  have "sint (page - 1) = signed_take_bit 31 (sint page - 1)"
    by (simp add: sint_word_ariths)
  also have "\<dots> = sint page - 1"
    by (rule signed_take_bit_int_eq_self) (use hi assms in simp_all)
  finally show ?thesis .
qed

lemma pageAfter_bounds:
  assumes "1 \<le> sint page" and "sint page < 2147483647"
  shows "1 \<le> sint (pageAfter page nav) \<and> sint (pageAfter page nav) \<le> sint page + 1"
  using assms sint_next_page [of page] sint_prev_page [of page]
  by (auto simp: pageAfter_def)

lemma namespaceLoop_starts:
  "\<exists>r t. fst (namespaceLoop env po pid n b ns page answers) =
     EvGetNamespaces pid page 100 r # t"
  by (subst namespaceLoop.simps)
     (auto simp: after_def WithSpinner_def split: sum.splits list.splits)

lemma namespaceLoop_oneFetchPerAnswer:
  "oneFetchPerAnswer (fst (namespaceLoop env po pid n b ns page answers))"
proof (induction n b ns page answers rule: namespaceLoop_induct [where env = env and pid = pid])
  case (fail n b ns page answers err)
  then show ?case by (simp add: namespaceLoop_fail)
next
  case (single n b ns page answers l)
  then show ?case by (simp add: namespaceLoop_single)
next
  case (waiting n b ns page l)
  then show ?case by (simp add: namespaceLoop_waiting)
next
  case (stop n b ns page l x nav rest)
  show ?case unfolding namespaceLoop_stop [OF stop.hyps] by simp
next
  case (navigate n b ns page l x nav rest)
  obtain r t where "fst (namespaceLoop env po pid (n + 1) False (namespaceAfter ns l x page nav)
      (pageAfter page nav) rest) = EvGetNamespaces pid (pageAfter page nav) 100 r # t"
    using namespaceLoop_starts by blast
  with navigate.IH show ?case
    unfolding namespaceLoop_navigate [OF navigate.hyps(1-4)] by (simp add: after_def)
qed

lemma repositoryLoop_oneFetchPerAnswer:
  "oneFetchPerAnswer (fst (repositoryLoop env po pid nsid parent n page answers))"
proof (induction n page answers
    rule: repositoryLoop_induct [where env = env and pid = pid and nsid = nsid])
  case (fail n page answers err)
  then show ?case by (simp add: repositoryLoop_fail)
next
  case (waiting n page l)
  then show ?case by (simp add: repositoryLoop_waiting)
next
  case (stop n page l x nav rest)
  show ?case unfolding repositoryLoop_stop [OF stop.hyps] by simp
next
  case (navigate n page l x nav rest)
  obtain r t where "fst (repositoryLoop env po pid nsid parent (n + 1) (pageAfter page nav) rest)
      = EvGetRepositories pid nsid (pageAfter page nav) 100 r # t"
    using repositoryLoop_starts by blast
  with navigate.IH show ?case
    unfolding repositoryLoop_navigate [OF navigate.hyps(1-3)] by (simp add: after_def)
qed

lemma namespaceLoop_pages:
  "1 \<le> sint page \<longrightarrow> sint page + int (length answers) \<le> 2147483647 \<longrightarrow>
     (\<forall>e \<in> set (fst (namespaceLoop env po pid n b ns page answers)).
        \<forall>p. fetchedPage e = Some p \<longrightarrow> 1 \<le> sint p)"
proof (induction n b ns page answers rule: namespaceLoop_induct [where env = env and pid = pid])
  case (fail n b ns page answers err)
  then show ?case by (simp add: namespaceLoop_fail)
next
  case (single n b ns page answers l)
  then show ?case by (simp add: namespaceLoop_single)
next
  case (waiting n b ns page l)
  then show ?case by (simp add: namespaceLoop_waiting)
next
  case (stop n b ns page l x nav rest)
  show ?case unfolding namespaceLoop_stop [OF stop.hyps] by simp
next
  case (navigate n b ns page l x nav rest)
  show ?case
  proof (intro impI)
    assume lo: "1 \<le> sint page"
      and hi: "sint page + int (length ((x, nav) # rest)) \<le> 2147483647"
    then have "sint page < 2147483647" by simp
    from pageAfter_bounds [OF lo this, of nav] hi
    have "1 \<le> sint (pageAfter page nav)"
      and "sint (pageAfter page nav) + int (length rest) \<le> 2147483647" by simp_all
    with navigate.IH lo show "\<forall>e \<in> set (fst (namespaceLoop env po pid n b ns page
        ((x, nav) # rest))). \<forall>p. fetchedPage e = Some p \<longrightarrow> 1 \<le> sint p"
      unfolding namespaceLoop_navigate [OF navigate.hyps(1-4)] by (simp add: after_def)
  qed
qed

lemma repositoryLoop_pages:
  "1 \<le> sint page \<longrightarrow> sint page + int (length answers) \<le> 2147483647 \<longrightarrow>
     (\<forall>e \<in> set (fst (repositoryLoop env po pid nsid parent n page answers)).
        \<forall>p. fetchedPage e = Some p \<longrightarrow> 1 \<le> sint p)"
proof (induction n page answers
    rule: repositoryLoop_induct [where env = env and pid = pid and nsid = nsid])
  case (fail n page answers err)
  then show ?case by (simp add: repositoryLoop_fail)
next
  case (waiting n page l)
  then show ?case by (simp add: repositoryLoop_waiting)
next
  case (stop n page l x nav rest)
  show ?case unfolding repositoryLoop_stop [OF stop.hyps] by simp
next
  case (navigate n page l x nav rest)
  show ?case
  proof (intro impI)
    assume lo: "1 \<le> sint page"
      and hi: "sint page + int (length ((x, nav) # rest)) \<le> 2147483647"
    then have "sint page < 2147483647" by simp
    from pageAfter_bounds [OF lo this, of nav] hi
    have "1 \<le> sint (pageAfter page nav)"
      and "sint (pageAfter page nav) + int (length rest) \<le> 2147483647" by simp_all
    with navigate.IH lo show "\<forall>e \<in> set (fst (repositoryLoop env po pid nsid parent n page
        ((x, nav) # rest))). \<forall>p. fetchedPage e = Some p \<longrightarrow> 1 \<le> sint p"
      unfolding repositoryLoop_navigate [OF navigate.hyps(1-3)] by (simp add: after_def)
  qed
qed

text \<open>
  C3, amended. In both loops one fetch follows every answered prompt after which the loop
  goes on, and no fetch follows a fetch. With pagination enabled and a navigation
  answered, the loop goes on with the page \<open>pageAfter page navigate\<close>: \<^verbatim>\<open>next\<close> is the
  page plus one as long as the page is below 2147483647, \<^verbatim>\<open>prev\<close> on a page above 1 is
  the page minus one, and \<^verbatim>\<open>prev\<close> on page 1 (and any other navigation) is the same
  page, which is fetched again. Starting from a page of at least 1, no fetched page is
  below 1 as long as the page plus the number of answers stays within \<^verbatim>\<open>int32\<close>.
\<close>

theorem page_navigation:
  "oneFetchPerAnswer (fst (namespaceLoop env po pid n b ns page answers))
   \<and> oneFetchPerAnswer (fst (repositoryLoop env po pid nsid parent n page answers'))
   \<and> (\<forall>l x navigate rest.
        GetNamespaces env n pid page 100 = Inr l \<and> \<not> (b \<and> length l = 1)
        \<and> \<not> namespacePaginationDisabled pid \<and> navigate \<noteq> '''' \<longrightarrow>
        namespaceLoop env po pid n b ns page ((x, navigate) # rest) =
          after
            [EvGetNamespaces pid page 100 (Inr l),
             EvGetNamespaceIdFromPrompt l po pid False page 100 (Some (x, navigate))]
            (namespaceLoop env po pid (n + 1) False (namespaceAfter ns l x page navigate)
               (pageAfter page navigate) rest))
   \<and> (\<forall>l x navigate rest.
        GetRepositories env n pid nsid page 100 = Inr l
        \<and> \<not> repositoryPaginationDisabled pid \<and> navigate \<noteq> '''' \<longrightarrow>
        repositoryLoop env po pid nsid parent n page ((x, navigate) # rest) =
          after
            [EvGetRepositories pid nsid page 100 (Inr l),
             EvGetRepositoryFromPrompt l po parent False page 100 (Some (x, navigate))]
            (repositoryLoop env po pid nsid parent (n + 1) (pageAfter page navigate) rest))
   \<and> (sint page < 2147483647 \<longrightarrow> sint (pageAfter page ''next'') = sint page + 1)
   \<and> (1 < sint page \<longrightarrow> sint (pageAfter page ''prev'') = sint page - 1)
   \<and> (sint page \<le> 1 \<longrightarrow> pageAfter page ''prev'' = page)
   \<and> (\<forall>navigate. navigate \<noteq> ''next'' \<and> navigate \<noteq> ''prev'' \<longrightarrow>
        pageAfter page navigate = page)
   \<and> (1 \<le> sint page \<and> sint page + int (length answers) \<le> 2147483647 \<longrightarrow>
        (\<forall>e \<in> set (fst (namespaceLoop env po pid n b ns page answers)).
           \<forall>p. fetchedPage e = Some p \<longrightarrow> 1 \<le> sint p))
   \<and> (1 \<le> sint page \<and> sint page + int (length answers') \<le> 2147483647 \<longrightarrow>
        (\<forall>e \<in> set (fst (repositoryLoop env po pid nsid parent n page answers')).
           \<forall>p. fetchedPage e = Some p \<longrightarrow> 1 \<le> sint p))"
proof (intro conjI)
  show "oneFetchPerAnswer (fst (namespaceLoop env po pid n b ns page answers))"
    by (rule namespaceLoop_oneFetchPerAnswer)
  show "oneFetchPerAnswer (fst (repositoryLoop env po pid nsid parent n page answers'))"
    by (rule repositoryLoop_oneFetchPerAnswer)
  show "\<forall>l x navigate rest.
        GetNamespaces env n pid page 100 = Inr l \<and> \<not> (b \<and> length l = 1)
        \<and> \<not> namespacePaginationDisabled pid \<and> navigate \<noteq> '''' \<longrightarrow>
        namespaceLoop env po pid n b ns page ((x, navigate) # rest) =
          after
            [EvGetNamespaces pid page 100 (Inr l),
             EvGetNamespaceIdFromPrompt l po pid False page 100 (Some (x, navigate))]
            (namespaceLoop env po pid (n + 1) False (namespaceAfter ns l x page navigate)
               (pageAfter page navigate) rest)"
    using namespaceLoop_navigate by blast
  show "\<forall>l x navigate rest.
        GetRepositories env n pid nsid page 100 = Inr l
        \<and> \<not> repositoryPaginationDisabled pid \<and> navigate \<noteq> '''' \<longrightarrow>
        repositoryLoop env po pid nsid parent n page ((x, navigate) # rest) =
          after
            [EvGetRepositories pid nsid page 100 (Inr l),
             EvGetRepositoryFromPrompt l po parent False page 100 (Some (x, navigate))]
            (repositoryLoop env po pid nsid parent (n + 1) (pageAfter page navigate) rest)"
    using repositoryLoop_navigate by blast
  show "sint page < 2147483647 \<longrightarrow> sint (pageAfter page ''next'') = sint page + 1"
    by (simp add: pageAfter_def sint_next_page)
  show "1 < sint page \<longrightarrow> sint (pageAfter page ''prev'') = sint page - 1"
    by (simp add: pageAfter_def sint_prev_page)
  show "sint page \<le> 1 \<longrightarrow> pageAfter page ''prev'' = page"
    by (simp add: pageAfter_def)
  show "\<forall>navigate. navigate \<noteq> ''next'' \<and> navigate \<noteq> ''prev'' \<longrightarrow>
        pageAfter page navigate = page"
    by (simp add: pageAfter_def)
  show "1 \<le> sint page \<and> sint page + int (length answers) \<le> 2147483647 \<longrightarrow>
        (\<forall>e \<in> set (fst (namespaceLoop env po pid n b ns page answers)).
           \<forall>p. fetchedPage e = Some p \<longrightarrow> 1 \<le> sint p)"
    using namespaceLoop_pages [of page answers env po pid n b ns] by blast
  show "1 \<le> sint page \<and> sint page + int (length answers') \<le> 2147483647 \<longrightarrow>
        (\<forall>e \<in> set (fst (repositoryLoop env po pid nsid parent n page answers')).
           \<forall>p. fetchedPage e = Some p \<longrightarrow> 1 \<le> sint p)"
    using repositoryLoop_pages [of page answers' env po pid nsid parent n] by blast
qed

theorem page_navigation_witness:
  "GetNamespaces sampleEnv 0 ''github'' 1 100 =
     Inr [\<lparr>ns_Id = ''a'', ns_Name = ''Alpha''\<rparr>, \<lparr>ns_Id = ''b'', ns_Name = ''Beta''\<rparr>]
   \<and> \<not> namespacePaginationDisabled ''github''
   \<and> 1 \<le> sint (1 :: int32)
   \<and> sint (1 :: int32) + int (length [('''', ''next''), (''c'', '''')]) \<le> 2147483647
   \<and> sint (pageAfter 1 ''next'') = 2
   \<and> namespaceLoop sampleEnv 0 ''github'' 0 True '''' 1 [('''', ''next''), (''c'', '''')] =
       ([EvGetNamespaces ''github'' 1 100
           (Inr [\<lparr>ns_Id = ''a'', ns_Name = ''Alpha''\<rparr>, \<lparr>ns_Id = ''b'', ns_Name = ''Beta''\<rparr>]),
         EvGetNamespaceIdFromPrompt
           [\<lparr>ns_Id = ''a'', ns_Name = ''Alpha''\<rparr>, \<lparr>ns_Id = ''b'', ns_Name = ''Beta''\<rparr>]
           0 ''github'' False 1 100 (Some ('''', ''next'')),
         EvGetNamespaces ''github'' 2 100 (Inr [\<lparr>ns_Id = ''c'', ns_Name = ''Gamma''\<rparr>]),
         EvGetNamespaceIdFromPrompt [\<lparr>ns_Id = ''c'', ns_Name = ''Gamma''\<rparr>]
           0 ''github'' False 2 100 (Some (''c'', ''''))],
        Some (Inr (''c'', ''Gamma'')))
   \<and> GetRepositories sampleEnv 0 ''github'' ''c'' 2 100 = Inr [sampleRepository ''one'']
   \<and> \<not> repositoryPaginationDisabled ''github''
   \<and> sint (pageAfter 2 ''prev'') = 1
   \<and> repositoryLoop sampleEnv 0 ''github'' ''c'' ''github/Gamma'' 0 2
         [(None, ''prev''), (Some (sampleRepository ''one''), '''')] =
       ([EvGetRepositories ''github'' ''c'' 2 100 (Inr [sampleRepository ''one'']),
         EvGetRepositoryFromPrompt [sampleRepository ''one''] 0 ''github/Gamma'' False 2 100
           (Some (None, ''prev'')),
         EvGetRepositories ''github'' ''c'' 1 100 (Inr [sampleRepository ''one'']),
         EvGetRepositoryFromPrompt [sampleRepository ''one''] 0 ''github/Gamma'' False 1 100
           (Some (Some (sampleRepository ''one''), ''''))],
        Some (Inr (sampleRepository ''one'')))"
  using page_navigation [where env = sampleEnv and po = 0 and pid = "''github''" and n = 0
      and b = True and ns = "''''" and page = 1 and answers = "[('''', ''next''), (''c'', '''')]"
      and nsid = "''c''" and parent = "''github/Gamma''"
      and answers' = "[(None, ''prev''), (Some (sampleRepository ''one''), '''')]"]
    page_navigation [where env = sampleEnv and po = 0 and pid = "''github''" and n = 0
      and b = True and ns = "''''" and page = 2 and answers = "[]"
      and nsid = "''c''" and parent = "''github/Gamma''"
      and answers' = "[(None, ''prev''), (Some (sampleRepository ''one''), '''')]"]
  by (simp add: run_simps pageAfter_def)

text \<open>
  As C3 is written it fails in two places. With pagination enabled, the answer
  \<^verbatim>\<open>prev\<close> on page 1 makes the namespace loop fetch page 1 a second time before it
  shows the prompt again: the run below has two fetches of page 1. And \<^verbatim>\<open>page\<close> is an
  \<^verbatim>\<open>int32\<close>: on page 2147483647 the answer \<^verbatim>\<open>next\<close> leads to the fetch of page
  -2147483648.
\<close>

theorem prev_at_first_page_fetches_again:
  "getRepositoryFromWizard
     (sampleEnv\<lparr>NamespacePromptAnswers := [('''', ''prev''), ('''', '''')]\<rparr>) sampleConfig =
     ([EvListSamples [] None,
       EvGetProviderIdFromPrompt
         [\<lparr>gv_Id = ''work'', gv_ProviderId = ''github'', gv_Name = ''GitHub'',
            gv_Username = ''dev'', gv_Alias = ''w''\<rparr>]
         0 False ''work'',
       EvGetNamespaces ''github'' 1 100
         (Inr [\<lparr>ns_Id = ''a'', ns_Name = ''Alpha''\<rparr>, \<lparr>ns_Id = ''b'', ns_Name = ''Beta''\<rparr>]),
       EvGetNamespaceIdFromPrompt
         [\<lparr>ns_Id = ''a'', ns_Name = ''Alpha''\<rparr>, \<lparr>ns_Id = ''b'', ns_Name = ''Beta''\<rparr>]
         0 ''github'' False 1 100 (Some ('''', ''prev'')),
       EvGetNamespaces ''github'' 1 100
         (Inr [\<lparr>ns_Id = ''a'', ns_Name = ''Alpha''\<rparr>, \<lparr>ns_Id = ''b'', ns_Name = ''Beta''\<rparr>]),
       EvGetNamespaceIdFromPrompt
         [\<lparr>ns_Id = ''a'', ns_Name = ''Alpha''\<rparr>, \<lparr>ns_Id = ''b'', ns_Name = ''Beta''\<rparr>]
         0 ''github'' False 1 100 (Some ('''', ''''))],
      Some (Inl ErrCtrlCAbort))
   \<and> fetches (fst (getRepositoryFromWizard
        (sampleEnv\<lparr>NamespacePromptAnswers := [('''', ''prev''), ('''', '''')]\<rparr>)
        sampleConfig)) = 2
   \<and> map fetchedPage
        (fst (repositoryLoop sampleEnv 0 ''github'' ''a'' ''github/Alpha'' 0 2147483647
           [(None, ''next''), (None, '''')]))
       = [Some 2147483647, None, Some (- 2147483648), None]
   \<and> sint (- 2147483648 :: int32) = - 2147483648"
  by (simp add: run_simps)

lemma listSamplesEvents_api:
  "filter isApiCall (listSamplesEvents env) =
     [EvListSamples (fst (ListSamples env)) (snd (snd (ListSamples env)))]"
  by (auto simp: listSamplesEvents_def split: prod.splits option.splits)

text \<open>
  C5, amended. With no configured provider and no sample, or in manual mode, the wizard
  lists the samples once and then goes straight to manual URL entry, whose result it
  returns: the listing of the samples is the only call of the API client in the run, and
  no provider, namespace or repository is queried.
\<close>

theorem manual_entry_after_sample_list:
  assumes "(length (UserGitProviders config) = 0 \<and> length (fst (ListSamples env)) = 0)
      \<or> Manual config"
  shows "getRepositoryFromWizard env config =
       (listSamplesEvents env
          @ [EvGetRepositoryFromUrlInput (MultiProject config) (ProjectOrder config)],
        Some (GetRepositoryFromUrlInput env (MultiProject config) (ProjectOrder config)
                (SelectedRepos config)))
     \<and> filter isApiCall (fst (getRepositoryFromWizard env config)) =
         [EvListSamples (fst (ListSamples env)) (snd (snd (ListSamples env)))]"
proof -
  have run: "getRepositoryFromWizard env config =
       (listSamplesEvents env
          @ [EvGetRepositoryFromUrlInput (MultiProject config) (ProjectOrder config)],
        Some (GetRepositoryFromUrlInput env (MultiProject config) (ProjectOrder config)
                (SelectedRepos config)))"
    using assms by (auto simp: getRepositoryFromWizard_def manualEntry_def after_def)
  show ?thesis
    unfolding run by (simp add: listSamplesEvents_api)
qed

theorem manual_entry_after_sample_list_witness:
  "((length (UserGitProviders (sampleConfig\<lparr>UserGitProviders := []\<rparr>)) = 0
       \<and> length (fst (ListSamples sampleEnv)) = 0)
      \<or> Manual (sampleConfig\<lparr>UserGitProviders := []\<rparr>))
   \<and> getRepositoryFromWizard sampleEnv (sampleConfig\<lparr>UserGitProviders := []\<rparr>) =
       ([EvListSamples [] None, EvGetRepositoryFromUrlInput False 0],
        Some (Inr (sampleRepository ''typed'')))"
  using manual_entry_after_sample_list [of "sampleConfig\<lparr>UserGitProviders := []\<rparr>" sampleEnv]
  by (simp add: run_simps)

text \<open>
  As C5 is written it fails: the sample list is fetched on line 48, before the test of
  line 53, so a query for the samples goes out before manual entry is reached, with no
  provider and no sample as well as in manual mode.
\<close>

theorem sample_list_fetched_before_manual_entry:
  "fst (getRepositoryFromWizard sampleEnv (sampleConfig\<lparr>UserGitProviders := []\<rparr>)) =
     [EvListSamples [] None, EvGetRepositoryFromUrlInput False 0]
   \<and> fst (getRepositoryFromWizard sampleEnv (sampleConfig\<lparr>Manual := True\<rparr>)) =
     [EvListSamples [] None, EvGetRepositoryFromUrlInput False 0]
   \<and> isApiCall (EvListSamples [] None)"
  by (simp add: run_simps)

lemma namespaceLoop_failure:
  "f \<in> set (fst (namespaceLoop env po pid n b ns page answers)) \<Longrightarrow>
   fetchFailure f = Some err \<Longrightarrow>
     snd (namespaceLoop env po pid n b ns page answers) = Some (Inl err)
     \<and> last (fst (namespaceLoop env po pid n b ns page answers)) = f"
proof (induction n b ns page answers rule: namespaceLoop_induct [where env = env and pid = pid])
  case (fail n b ns page answers err')
  then show ?case by (auto simp add: namespaceLoop_fail)
next
  case (single n b ns page answers l)
  then show ?case by (auto simp add: namespaceLoop_single)
next
  case (waiting n b ns page l)
  then show ?case by (auto simp add: namespaceLoop_waiting)
next
  case (stop n b ns page l x nav rest)
  from stop.prems show ?case
    unfolding namespaceLoop_stop [OF stop.hyps] by auto
next
  case (navigate n b ns page l x nav rest)
  from navigate.prems navigate.IH show ?case
    unfolding namespaceLoop_navigate [OF navigate.hyps(1-4)]
    by (auto simp: after_def namespaceLoop_nonempty)
qed

lemma repositoryLoop_failure:
  "f \<in> set (fst (repositoryLoop env po pid nsid parent n page answers)) \<Longrightarrow>
   fetchFailure f = Some err \<Longrightarrow>
     snd (repositoryLoop env po pid nsid parent n page answers) = Some (Inl err)
     \<and> last (fst (repositoryLoop env po pid nsid parent n page answers)) = f"
proof (induction n page answers
    rule: repositoryLoop_induct [where env = env and pid = pid and nsid = nsid])
  case (fail n page answers err')
  then show ?case by (auto simp add: repositoryLoop_fail)
next
  case (waiting n page l)
  then show ?case by (auto simp add: repositoryLoop_waiting)
next
  case (stop n page l x nav rest)
  from stop.prems show ?case
    unfolding repositoryLoop_stop [OF stop.hyps] by auto
next
  case (navigate n page l x nav rest)
  from navigate.prems navigate.IH show ?case
    unfolding repositoryLoop_navigate [OF navigate.hyps(1-3)]
    by (auto simp: after_def repositoryLoop_nonempty)
qed

lemma repositoryStage_failure:
  assumes "f \<in> set (fst (repositoryStage env config cid pid nsid ns))"
    and "fetchFailure f = Some err"
  shows "snd (repositoryStage env config cid pid nsid ns) = Some (Inl err)
     \<and> last (fst (repositoryStage env config cid pid nsid ns)) = f"
proof -
  let ?r = "repositoryLoop env (ProjectOrder config) pid nsid (pid @ ''/'' @ ns) 0 1
              (RepositoryPromptAnswers env)"
  have f: "f \<in> set (fst ?r)"
    using assms
    by (auto simp: repositoryStage_def split: prod.splits option.splits sum.splits if_splits)
  from repositoryLoop_failure [OF f assms(2)] show ?thesis
    by (auto simp: repositoryStage_def split: prod.splits option.splits sum.splits)
qed

lemma providerFlow_failure:
  assumes "f \<in> set (fst (providerFlow env config views cid))" and "fetchFailure f = Some err"
  shows "snd (providerFlow env config views cid) = Some (Inl err)
     \<and> last (fst (providerFlow env config views cid)) = f"
proof -
  let ?pid = "lookupProviderId '''' views cid"
  let ?r = "namespaceLoop env (ProjectOrder config) ?pid 0 True '''' 1
              (NamespacePromptAnswers env)"
  show ?thesis
  proof (cases "f \<in> set (fst ?r)")
    case True
    from namespaceLoop_failure [OF True assms(2)] show ?thesis
      by (auto simp: providerFlow_def split: prod.splits option.splits sum.splits)
  next
    case False
    with assms repositoryStage_failure [of f env config cid ?pid _ _ err] show ?thesis
      by (auto simp: providerFlow_def after_def repositoryStage_nonempty
            split: prod.splits option.splits sum.splits)
  qed
qed

lemma chosenSource_failure:
  assumes "f \<in> set (fst (chosenSource env config samples views cid))"
    and "fetchFailure f = Some err"
  shows "snd (chosenSource env config samples views cid) = Some (Inl err)
     \<and> last (fst (chosenSource env config samples views cid)) = f"
  using assms providerFlow_failure [of f env config views cid err]
  by (auto simp: chosenSource_def manualEntry_def sampleFlow_def
        split: if_splits option.splits sum.splits prod.splits)

lemma chooseSource_failure:
  assumes "f \<in> set (fst (chooseSource env config samples views))"
    and "fetchFailure f = Some err"
  shows "snd (chooseSource env config samples views) = Some (Inl err)
     \<and> last (fst (chooseSource env config samples views)) = f"
proof (cases "GetProviderIdFromPrompt env views (ProjectOrder config) (length samples > 0) = ''''")
  case True
  with assms show ?thesis
    unfolding chooseSource_def by (auto simp: after_def chosenSource_abort)
next
  case False
  with assms chosenSource_nonempty [OF False, of env config samples views]
    chosenSource_failure [of f env config samples views, OF _ assms(2)]
  show ?thesis
    unfolding chooseSource_def by (auto simp: after_def)
qed

lemma listSamplesEvents_no_failure:
  "f \<in> set (listSamplesEvents env) \<Longrightarrow> fetchFailure f = None"
  by (auto simp: listSamplesEvents_def split: prod.splits option.splits)

text \<open>
  C6, amended. Whenever the fetch of a namespace page or of a repository page fails, the
  wizard returns at once, with the error of the fetch as it is: the failed fetch is the
  last thing the run did, so there is no retry and no further prompt.
\<close>

theorem fetch_failure_aborts:
  "\<forall>f \<in> set (fst (getRepositoryFromWizard env config)). \<forall>err.
     fetchFailure f = Some err \<longrightarrow>
       snd (getRepositoryFromWizard env config) = Some (Inl err)
       \<and> last (fst (getRepositoryFromWizard env config)) = f"
proof (intro ballI allI impI)
  fix f err
  assume f: "f \<in> set (fst (getRepositoryFromWizard env config))"
    and err: "fetchFailure f = Some err"
  from err listSamplesEvents_no_failure [of f env]
  have "f \<notin> set (listSamplesEvents env)" by auto
  with f err chooseSource_failure [of f env config _ _ err]
  show "snd (getRepositoryFromWizard env config) = Some (Inl err)
       \<and> last (fst (getRepositoryFromWizard env config)) = f"
    by (auto simp: getRepositoryFromWizard_def after_def manualEntry_def chooseSource_nonempty
          split: if_splits)
qed

theorem fetch_failure_aborts_witness:
  "fetchFailure (EvGetRepositories ''github'' ''a'' 1 100
      (Inl (OtherError ''connection refused''))) = Some (OtherError ''connection refused'')
   \<and> getRepositoryFromWizard
       (sampleEnv\<lparr>NamespacePromptAnswers := [(''a'', '''')],
                  GetRepositories := (\<lambda>n providerId namespaceId page perPage.
                     Inl (OtherError ''connection refused'')),
                  RepositoryPromptAnswers := [(Some (sampleRepository ''one''), '''')]\<rparr>)
       sampleConfig =
     ([EvListSamples [] None,
       EvGetProviderIdFromPrompt
         [\<lparr>gv_Id = ''work'', gv_ProviderId = ''github'', gv_Name = ''GitHub'',
            gv_Username = ''dev'', gv_Alias = ''w''\<rparr>]
         0 False ''work'',
       EvGetNamespaces ''github'' 1 100
         (Inr [\<lparr>ns_Id = ''a'', ns_Name = ''Alpha''\<rparr>, \<lparr>ns_Id = ''b'', ns_Name = ''Beta''\<rparr>]),
       EvGetNamespaceIdFromPrompt
         [\<lparr>ns_Id = ''a'', ns_Name = ''Alpha''\<rparr>, \<lparr>ns_Id = ''b'', ns_Name = ''Beta''\<rparr>]
         0 ''github'' False 1 100 (Some (''a'', '''')),
       EvGetRepositories ''github'' ''a'' 1 100 (Inl (OtherError ''connection refused''))],
      Some (Inl (OtherError ''connection refused'')))"
  using fetch_failure_aborts [of
      "sampleEnv\<lparr>NamespacePromptAnswers := [(''a'', '''')],
                  GetRepositories := (\<lambda>n providerId namespaceId page perPage.
                     Inl (OtherError ''connection refused'')),
                  RepositoryPromptAnswers := [(Some (sampleRepository ''one''), '''')]\<rparr>"
      sampleConfig]
  by (simp add: run_simps)

text \<open>
  As C6 is written it fails: the error of a failed page fetch comes back as it is. The
  run below returns the error of \<^verbatim>\<open>GetNamespaces\<close> itself, whose text is not prefixed
  and which wraps nothing.
\<close>

theorem fetch_failure_returned_unwrapped:
  "snd (getRepositoryFromWizard
       (sampleEnv\<lparr>GetNamespaces := (\<lambda>n providerId page perPage.
                     Inl (OtherError ''connection refused''))\<rparr>)
       sampleConfig) = Some (Inl (OtherError ''connection refused''))
   \<and> Error (OtherError ''connection refused'') = ''connection refused''
   \<and> Unwrap (OtherError ''connection refused'') = None
   \<and> OtherError ''connection refused''
       \<noteq> Errorf ''failed to load namespaces: '' (OtherError ''connection refused'')"
  by (simp add: run_simps)

lemma namespaceLoop_events:
  "e \<in> set (fst (namespaceLoop env po pid n b ns page answers)) \<Longrightarrow>
     chosenAt e = None \<and> \<not> isSetBranchFromWizard e"
proof (induction n b ns page answers rule: namespaceLoop_induct [where env = env and pid = pid])
  case (fail n b ns page answers err)
  then show ?case by (auto simp add: namespaceLoop_fail)
next
  case (single n b ns page answers l)
  then show ?case by (auto simp add: namespaceLoop_single)
next
  case (waiting n b ns page l)
  then show ?case by (auto simp add: namespaceLoop_waiting)
next
  case (stop n b ns page l x nav rest)
  from stop.prems show ?case
    unfolding namespaceLoop_stop [OF stop.hyps] by auto
next
  case (navigate n b ns page l x nav rest)
  from navigate.prems navigate.IH show ?case
    unfolding namespaceLoop_navigate [OF navigate.hyps(1-4)]
    by (auto simp: after_def)
qed

lemma repositoryLoop_chosen:
  "e \<in> set (fst (repositoryLoop env po pid nsid parent n page answers)) \<Longrightarrow>
     \<not> isSetBranchFromWizard e
     \<and> (\<forall>repo. chosenAt e = Some repo \<longrightarrow>
          snd (repositoryLoop env po pid nsid parent n page answers) = Some (Inr repo)
          \<and> last (fst (repositoryLoop env po pid nsid parent n page answers)) = e)"
proof (induction n page answers
    rule: repositoryLoop_induct [where env = env and pid = pid and nsid = nsid])
  case (fail n page answers err)
  then show ?case by (auto simp add: repositoryLoop_fail)
next
  case (waiting n page l)
  then show ?case by (auto simp add: repositoryLoop_waiting)
next
  case (stop n page l x nav rest)
  from stop.prems stop.hyps(2) show ?case
    unfolding repositoryLoop_stop [OF stop.hyps]
    by (cases x) (auto split: if_splits)
next
  case (navigate n page l x nav rest)
  from navigate.prems navigate.hyps(3) navigate.IH show ?case
    unfolding repositoryLoop_navigate [OF navigate.hyps(1-3)]
    by (cases x) (auto simp: after_def repositoryLoop_nonempty)
qed

lemma repositoryStage_chosen:
  assumes "SkipBranchSelection config"
    and "e \<in> set (fst (repositoryStage env config cid pid nsid ns))"
  shows "\<not> isSetBranchFromWizard e
     \<and> (\<forall>repo. chosenAt e = Some repo \<longrightarrow>
          snd (repositoryStage env config cid pid nsid ns) = Some (Inr repo)
          \<and> last (fst (repositoryStage env config cid pid nsid ns)) = e)"
proof -
  let ?r = "repositoryLoop env (ProjectOrder config) pid nsid (pid @ ''/'' @ ns) 0 1
              (RepositoryPromptAnswers env)"
  have stage: "repositoryStage env config cid pid nsid ns = ?r"
    using assms(1)
    by (auto simp: repositoryStage_def split: prod.splits option.splits sum.splits)
  from assms(2) repositoryLoop_chosen [of e env "ProjectOrder config" pid nsid
      "pid @ ''/'' @ ns" 0 1 "RepositoryPromptAnswers env"]
  show ?thesis unfolding stage by blast
qed

lemma providerFlow_chosen:
  assumes "SkipBranchSelection config"
    and "e \<in> set (fst (providerFlow env config views cid))"
  shows "\<not> isSetBranchFromWizard e
     \<and> (\<forall>repo. chosenAt e = Some repo \<longrightarrow>
          snd (providerFlow env config views cid) = Some (Inr repo)
          \<and> last (fst (providerFlow env config views cid)) = e)"
proof -
  let ?pid = "lookupProviderId '''' views cid"
  let ?r = "namespaceLoop env (ProjectOrder config) ?pid 0 True '''' 1
              (NamespacePromptAnswers env)"
  show ?thesis
  proof (cases "e \<in> set (fst ?r)")
    case True
    from namespaceLoop_events [OF True] show ?thesis by simp
  next
    case False
    with assms(2) repositoryStage_chosen [OF assms(1), of e env cid ?pid _ _] show ?thesis
      by (auto simp: providerFlow_def after_def repositoryStage_nonempty
            split: prod.splits option.splits sum.splits)
  qed
qed

lemma chosenSource_chosen:
  assumes "SkipBranchSelection config"
    and "e \<in> set (fst (chosenSource env config samples views cid))"
  shows "\<not> isSetBranchFromWizard e
     \<and> (\<forall>repo. chosenAt e = Some repo \<longrightarrow>
          snd (chosenSource env config samples views cid) = Some (Inr repo)
          \<and> last (fst (chosenSource env config samples views cid)) = e)"
  using assms(2) providerFlow_chosen [OF assms(1), of e env views cid]
  by (auto simp: chosenSource_def manualEntry_def sampleFlow_def
        split: if_splits option.splits sum.splits prod.splits)

lemma chooseSource_chosen:
  assumes "SkipBranchSelection config"
    and "e \<in> set (fst (chooseSource env config samples views))"
  shows "\<not> isSetBranchFromWizard e
     \<and> (\<forall>repo. chosenAt e = Some repo \<longrightarrow>
          snd (chooseSource env config samples views) = Some (Inr repo)
          \<and> last (fst (chooseSource env config samples views)) = e)"
proof (cases "GetProviderIdFromPrompt env views (ProjectOrder config) (length samples > 0) = ''''")
  case True
  with assms(2) show ?thesis
    unfolding chooseSource_def by (auto simp: after_def chosenSource_abort)
next
  case False
  with assms(2) chosenSource_nonempty [OF False, of env config samples views]
    chosenSource_chosen [OF assms(1), of e env samples views]
  show ?thesis
    unfolding chooseSource_def by (auto simp: after_def)
qed

lemma listSamplesEvents_chosen:
  "e \<in> set (listSamplesEvents env) \<Longrightarrow> chosenAt e = None \<and> \<not> isSetBranchFromWizard e"
  by (auto simp: listSamplesEvents_def split: prod.splits option.splits)

text \<open>
  C7. With \<^verbatim>\<open>SkipBranchSelection\<close> set, the branch wizard is never called, and once a
  repository is chosen at the repository prompt the run ends there and returns that very
  repository, every field as the prompt handed it over.
\<close>

theorem skip_branch_selection:
  assumes "SkipBranchSelection config"
  shows "\<forall>e \<in> set (fst (getRepositoryFromWizard env config)).
     \<not> isSetBranchFromWizard e
     \<and> (\<forall>repo. chosenAt e = Some repo \<longrightarrow>
          snd (getRepositoryFromWizard env config) = Some (Inr repo)
          \<and> last (fst (getRepositoryFromWizard env config)) = e)"
proof
  fix e
  assume e: "e \<in> set (fst (getRepositoryFromWizard env config))"
  show "\<not> isSetBranchFromWizard e
     \<and> (\<forall>repo. chosenAt e = Some repo \<longrightarrow>
          snd (getRepositoryFromWizard env config) = Some (Inr repo)
          \<and> last (fst (getRepositoryFromWizard env config)) = e)"
  proof (cases "e \<in> set (listSamplesEvents env)")
    case True
    then show ?thesis using listSamplesEvents_chosen [of e env] by simp
  next
    case False
    with e chooseSource_chosen [OF assms, of e env]
    show ?thesis
      by (auto simp: getRepositoryFromWizard_def after_def manualEntry_def
            chooseSource_nonempty split: if_splits)
  qed
qed

theorem skip_branch_selection_witness:
  "SkipBranchSelection (sampleConfig\<lparr>SkipBranchSelection := True\<rparr>)
   \<and> chosenAt (EvGetRepositoryFromPrompt [sampleRepository ''one''] 0 ''github/Alpha'' False
        1 100 (Some (Some (sampleRepository ''one''), ''''))) = Some (sampleRepository ''one'')
   \<and> getRepositoryFromWizard
       (sampleEnv\<lparr>NamespacePromptAnswers := [(''a'', '''')],
                  RepositoryPromptAnswers := [(Some (sampleRepository ''one''), '''')]\<rparr>)
       (sampleConfig\<lparr>SkipBranchSelection := True\<rparr>) =
     ([EvListSamples [] None,
       EvGetProviderIdFromPrompt
         [\<lparr>gv_Id = ''work'', gv_ProviderId = ''github'', gv_Name = ''GitHub'',
            gv_Username = ''dev'', gv_Alias = ''w''\<rparr>]
         0 False ''work'',
       EvGetNamespaces ''github'' 1 100
         (Inr [\<lparr>ns_Id = ''a'', ns_Name = ''Alpha''\<rparr>, \<lparr>ns_Id = ''b'', ns_Name = ''Beta''\<rparr>]),
       EvGetNamespaceIdFromPrompt
         [\<lparr>ns_Id = ''a'', ns_Name = ''Alpha''\<rparr>, \<lparr>ns_Id = ''b'', ns_Name = ''Beta''\<rparr>]
         0 ''github'' False 1 100 (Some (''a'', '''')),
       EvGetRepositories ''github'' ''a'' 1 100 (Inr [sampleRepository ''one'']),
       EvGetRepositoryFromPrompt [sampleRepository ''one''] 0 ''github/Alpha'' False 1 100
         (Some (Some (sampleRepository ''one''), ''''))],
      Some (Inr (sampleRepository ''one'')))
   \<and> snd (getRepositoryFromWizard
       (sampleEnv\<lparr>NamespacePromptAnswers := [(''a'', '''')],
                  RepositoryPromptAnswers := [(Some (sampleRepository ''one''), '''')]\<rparr>)
       sampleConfig) = Some (Inr ((sampleRepository ''one'')\<lparr>repo_Branch := ''main''\<rparr>))"
  using skip_branch_selection [of "sampleConfig\<lparr>SkipBranchSelection := True\<rparr>"
      "sampleEnv\<lparr>NamespacePromptAnswers := [(''a'', '''')],
                  RepositoryPromptAnswers := [(Some (sampleRepository ''one''), '''')]\<rparr>"]
  by (simp add: run_simps)

lemma namespaceLoop_ListSamples:
  "namespaceLoop (env\<lparr>ListSamples := s\<rparr>) po pid n b ns page answers =
     namespaceLoop env po pid n b ns page answers"
proof (induction n b ns page answers rule: namespaceLoop_induct [where env = env and pid = pid])
  case (fail n b ns page answers err)
  then show ?case by (simp add: namespaceLoop_fail)
next
  case (single n b ns page answers l)
  then show ?case by (simp add: namespaceLoop_single)
next
  case (waiting n b ns page l)
  then show ?case by (simp add: namespaceLoop_waiting)
next
  case (stop n b ns page l x nav rest)
  have "GetNamespaces (env\<lparr>ListSamples := s\<rparr>) n pid page 100 = Inr l"
    using stop.hyps(1) by simp
  from namespaceLoop_stop [OF this stop.hyps(2,3)] namespaceLoop_stop [OF stop.hyps]
  show ?case by simp
next
  case (navigate n b ns page l x nav rest)
  have "GetNamespaces (env\<lparr>ListSamples := s\<rparr>) n pid page 100 = Inr l"
    using navigate.hyps(1) by simp
  from namespaceLoop_navigate [OF this navigate.hyps(2-4)]
    namespaceLoop_navigate [OF navigate.hyps(1-4)] navigate.IH
  show ?case by simp
qed

lemma repositoryLoop_ListSamples:
  "repositoryLoop (env\<lparr>ListSamples := s\<rparr>) po pid nsid parent n page answers =
     repositoryLoop env po pid nsid parent n page answers"
proof (induction n page answers
    rule: repositoryLoop_induct [where env = env and pid = pid and nsid = nsid])
  case (fail n page answers err)
  then show ?case by (simp add: repositoryLoop_fail)
next
  case (waiting n page l)
  then show ?case by (simp add: repositoryLoop_waiting)
next
  case (stop n page l x nav rest)
  have "GetRepositories (env\<lparr>ListSamples := s\<rparr>) n pid nsid page 100 = Inr l"
    using stop.hyps(1) by simp
  from repositoryLoop_stop [OF this stop.hyps(2)] repositoryLoop_stop [OF stop.hyps]
  show ?case by simp
next
  case (navigate n page l x nav rest)
  have "GetRepositories (env\<lparr>ListSamples := s\<rparr>) n pid nsid page 100 = Inr l"
    using navigate.hyps(1) by simp
  from repositoryLoop_navigate [OF this navigate.hyps(2-3)]
    repositoryLoop_navigate [OF navigate.hyps(1-3)] navigate.IH
  show ?case by simp
qed

lemma repositoryStage_ListSamples:
  "repositoryStage (env\<lparr>ListSamples := s\<rparr>) config cid pid nsid ns =
     repositoryStage env config cid pid nsid ns"
  by (simp add: repositoryStage_def repositoryLoop_ListSamples
        split: prod.splits option.splits sum.splits)

lemma providerFlow_ListSamples:
  "providerFlow (env\<lparr>ListSamples := s\<rparr>) config views cid =
     providerFlow env config views cid"
  by (simp add: providerFlow_def namespaceLoop_ListSamples repositoryStage_ListSamples
        split: prod.splits option.splits sum.splits)

lemma sampleFlow_ListSamples:
  "sampleFlow (env\<lparr>ListSamples := s\<rparr>) samples = sampleFlow env samples"
  by (simp add: sampleFlow_def split: prod.splits option.splits sum.splits)

lemma manualEntry_ListSamples:
  "manualEntry (env\<lparr>ListSamples := s\<rparr>) config = manualEntry env config"
  by (simp add: manualEntry_def)

lemma chooseSource_ListSamples:
  "chooseSource (env\<lparr>ListSamples := s\<rparr>) config samples views =
     chooseSource env config samples views"
  by (simp add: chooseSource_def chosenSource_def providerFlow_ListSamples
        manualEntry_ListSamples sampleFlow_ListSamples)

text \<open>
  C8, amended. When the listing of the samples fails, the wizard does not return: it logs
  the error and goes on exactly as after a listing that succeeded with the samples the
  failed one handed back. The two runs differ in the listing's own event and the log entry
  only. When the failed listing hands back no samples that is the run after zero samples:
  with no configured provider (or in manual mode) manual entry, otherwise the provider
  prompt with no sample option.
\<close>

theorem sample_list_failure_not_fatal:
  "getRepositoryFromWizard (env\<lparr>ListSamples := (samples, res, Some err)\<rparr>) config =
     after [EvListSamples samples (Some err), EvLogDebug (HandleErrorResponse env res err)]
       (if (length (UserGitProviders config) = 0 \<and> length samples = 0) \<or> Manual config
        then manualEntry env config
        else chooseSource env config samples
               (buildGitProviderViewList [] (UserGitProviders config)
                  (GetSupportedGitProviders env)))
   \<and> getRepositoryFromWizard (env\<lparr>ListSamples := (samples, res', None)\<rparr>) config =
     after [EvListSamples samples None]
       (if (length (UserGitProviders config) = 0 \<and> length samples = 0) \<or> Manual config
        then manualEntry env config
        else chooseSource env config samples
               (buildGitProviderViewList [] (UserGitProviders config)
                  (GetSupportedGitProviders env)))
   \<and> getRepositoryFromWizard (env\<lparr>ListSamples := ([], res, Some err)\<rparr>) config =
     after [EvListSamples [] (Some err), EvLogDebug (HandleErrorResponse env res err)]
       (if length (UserGitProviders config) = 0 \<or> Manual config then manualEntry env config
        else chooseSource env config []
               (buildGitProviderViewList [] (UserGitProviders config)
                  (GetSupportedGitProviders env)))
   \<and> getRepositoryFromWizard (env\<lparr>ListSamples := ([], res', None)\<rparr>) config =
     after [EvListSamples [] None]
       (if length (UserGitProviders config) = 0 \<or> Manual config then manualEntry env config
        else chooseSource env config []
               (buildGitProviderViewList [] (UserGitProviders config)
                  (GetSupportedGitProviders env)))"
  by (simp add: getRepositoryFromWizard_def listSamplesEvents_def chooseSource_ListSamples
        manualEntry_ListSamples)

theorem sample_list_failure_not_fatal_witness:
  "getRepositoryFromWizard
     (sampleEnv\<lparr>ListSamples := ([], Some (HttpResponse 502), Some (OtherError ''bad gateway'')),
                NamespacePromptAnswers := [(''a'', '''')],
                RepositoryPromptAnswers := [(Some (sampleRepository ''one''), '''')]\<rparr>)
     (sampleConfig\<lparr>SkipBranchSelection := True\<rparr>) =
     ([EvListSamples [] (Some (OtherError ''bad gateway'')),
       EvLogDebug (OtherError ''bad gateway''),
       EvGetProviderIdFromPrompt
         [\<lparr>gv_Id = ''work'', gv_ProviderId = ''github'', gv_Name = ''GitHub'',
            gv_Username = ''dev'', gv_Alias = ''w''\<rparr>]
         0 False ''work'',
       EvGetNamespaces ''github'' 1 100
         (Inr [\<lparr>ns_Id = ''a'', ns_Name = ''Alpha''\<rparr>, \<lparr>ns_Id = ''b'', ns_Name = ''Beta''\<rparr>]),
       EvGetNamespaceIdFromPrompt
         [\<lparr>ns_Id = ''a'', ns_Name = ''Alpha''\<rparr>, \<lparr>ns_Id = ''b'', ns_Name = ''Beta''\<rparr>]
         0 ''github'' False 1 100 (Some (''a'', '''')),
       EvGetRepositories ''github'' ''a'' 1 100 (Inr [sampleRepository ''one'']),
       EvGetRepositoryFromPrompt [sampleRepository ''one''] 0 ''github/Alpha'' False 1 100
         (Some (Some (sampleRepository ''one''), ''''))],
      Some (Inr (sampleRepository ''one'')))
   \<and> getRepositoryFromWizard
       (sampleEnv\<lparr>ListSamples := ([], Some (HttpResponse 502), Some (OtherError ''bad gateway''))\<rparr>)
       (sampleConfig\<lparr>UserGitProviders := []\<rparr>) =
     ([EvListSamples [] (Some (OtherError ''bad gateway'')),
       EvLogDebug (OtherError ''bad gateway''),
       EvGetRepositoryFromUrlInput False 0],
      Some (Inr (sampleRepository ''typed'')))"
  using sample_list_failure_not_fatal [where
      env = "sampleEnv\<lparr>NamespacePromptAnswers := [(''a'', '''')],
                RepositoryPromptAnswers := [(Some (sampleRepository ''one''), '''')]\<rparr>"
      and samples = "[]"
      and res = "Some (HttpResponse 502)" and err = "OtherError ''bad gateway''"
      and config = "sampleConfig\<lparr>SkipBranchSelection := True\<rparr>" and res' = None]
    sample_list_failure_not_fatal [where env = sampleEnv and samples = "[]"
      and res = "Some (HttpResponse 502)" and err = "OtherError ''bad gateway''"
      and config = "sampleConfig\<lparr>UserGitProviders := []\<rparr>" and res' = None]
  by (simp add: run_simps)

text \<open>
  As C8 is written it fails when the failed listing hands back samples: lines 53, 77 and
  88 read \<^verbatim>\<open>samples\<close> as it was returned, whatever \<^verbatim>\<open>err\<close> is. With no configured
  provider, the failed listing below that came with one sample leads to the provider
  prompt with the sample option and to a repository made from that sample; with zero
  samples the same wizard goes to manual entry.
\<close>

theorem failed_listing_with_samples_is_used:
  "getRepositoryFromWizard
     (sampleEnv\<lparr>ListSamples :=
                  ([\<lparr>sample_Name = ''starter'', sample_GitUrl = ''https://example.com/starter''\<rparr>],
                   Some (HttpResponse 200), Some (OtherError ''undecodable'')),
                GetProviderIdFromPrompt :=
                  (\<lambda>views projectOrder hasSamples. ''<CREATE_FROM_SAMPLE>''),
                GetSampleFromPrompt :=
                  (\<lambda>samples. case samples of [] \<Rightarrow> None | sample # rest \<Rightarrow> Some sample)\<rparr>)
     (sampleConfig\<lparr>UserGitProviders := []\<rparr>) =
     ([EvListSamples
         [\<lparr>sample_Name = ''starter'', sample_GitUrl = ''https://example.com/starter''\<rparr>]
         (Some (OtherError ''undecodable'')),
       EvLogDebug (OtherError ''undecodable''),
       EvGetProviderIdFromPrompt [] 0 True ''<CREATE_FROM_SAMPLE>'',
       EvGetSampleFromPrompt
         [\<lparr>sample_Name = ''starter'', sample_GitUrl = ''https://example.com/starter''\<rparr>]
         (Some \<lparr>sample_Name = ''starter'', sample_GitUrl = ''https://example.com/starter''\<rparr>),
       EvGetGitContext ''https://example.com/starter''],
      Some (Inr (sampleRepository ''sample'')))
   \<and> getRepositoryFromWizard
       (sampleEnv\<lparr>ListSamples := ([], None, None),
                  GetProviderIdFromPrompt :=
                    (\<lambda>views projectOrder hasSamples. ''<CREATE_FROM_SAMPLE>''),
                  GetSampleFromPrompt :=
                    (\<lambda>samples. case samples of [] \<Rightarrow> None | sample # rest \<Rightarrow> Some sample)\<rparr>)
       (sampleConfig\<lparr>UserGitProviders := []\<rparr>) =
     ([EvListSamples [] None, EvGetRepositoryFromUrlInput False 0],
      Some (Inr (sampleRepository ''typed'')))"
  by (simp add: run_simps)

end
